theory Spec2Isabelle
  imports Main "HOL-Library.Char_ord" "HOL-Library.List_Lexorder" "HOL-Library.Multiset"
begin

section \<open>Errors\<close>

text \<open>
  Every way in which the Python scripts stop early is a value: \<open>SysExit\<close> is
  \<^verbatim>\<open>logging.fatal(...); sys.exit(1)\<close>, the others are the exceptions Python raises
  (an exception that nothing catches ends the run as well).
\<close>

datatype error = SysExit | KeyError | IndexError | AttributeError | TypeError

section \<open>gtex_v7_to_dats.py: choosing the study (main, lines 311-318)\<close>

text \<open>
  \<^verbatim>\<open>
  study_ids = [k for k in dbgap_study_pub_md.keys()]
  n_study_ids =len(study_ids)
  study_id = study_ids[0]
  if n_study_ids != 1:
      logging.fatal(...)
      sys.exit(1)
  \<close>
  The dictionary returned by \<^verbatim>\<open>read_study_metadata\<close> is an association list in insertion
  order. Indexing an empty list raises IndexError, and it does so before the count is looked at.
\<close>

definition main_study_id :: "('k \<times> 'md) list \<Rightarrow> error + 'k" where
  "main_study_id dbgap_study_pub_md =
     (let study_ids = map fst dbgap_study_pub_md;
          n_study_ids = length study_ids
      in case study_ids of
           [] \<Rightarrow> Inl IndexError
         | study_id # _ \<Rightarrow> if n_study_ids \<noteq> 1 then Inl SysExit else Inr study_id)"

section \<open>DATS objects\<close>

text \<open>
  Modelled from the spec: the class \<^verbatim>\<open>DatsObj\<close> of \<^verbatim>\<open>ccmm.dats.datsobj\<close> (its constructor,
  \<^verbatim>\<open>get\<close>, \<^verbatim>\<open>getProperty\<close>, \<^verbatim>\<open>set\<close> and \<^verbatim>\<open>getIdRef\<close>) is not among the sources. The spec
  describes a Node as a type tag with an ordered sequence of (property name, value) pairs whose
  values are scalars, nested Nodes or sequences, and a Reference as a placeholder that carries
  the identity of a Node instead of its content.

  Python objects are shared by reference and mutated in place, so Nodes live in a store: an
  address is the identity of an object, \<open>Obj a\<close> is an occurrence of the object itself (it is
  emitted in full there), \<open>IdRef a\<close> is what \<^verbatim>\<open>getIdRef()\<close> returns. A property list holds
  its list values directly; the scripts never share one list between two properties.
\<close>

type_synonym addr = nat

datatype dats_val =
    PyNone
  | Str string
  | Num int
  | Lst "dats_val list"
  | Obj addr
  | IdRef addr

fun is_Str :: "dats_val \<Rightarrow> bool" where
  "is_Str (Str _) = True"
| "is_Str _ = False"

fun str_of :: "dats_val \<Rightarrow> string" where
  "str_of (Str s) = s"
| "str_of _ = []"

record dats_obj =
  dats_type :: string
  atts :: "(string \<times> dats_val) list"

record heap =
  cells :: "addr \<Rightarrow> dats_obj"
  next_addr :: addr

definition DatsObj :: "string \<Rightarrow> (string \<times> dats_val) list \<Rightarrow> heap \<Rightarrow> addr \<times> heap" where
  "DatsObj t as h =
     (next_addr h,
      \<lparr>cells = (cells h)(next_addr h := \<lparr>dats_type = t, atts = as\<rparr>),
       next_addr = Suc (next_addr h)\<rparr>)"

definition getIdRef :: "addr \<Rightarrow> dats_val" where
  "getIdRef a = IdRef a"

text \<open>A property that is absent reads as \<^verbatim>\<open>None\<close>.\<close>

definition DatsObj_get :: "dats_obj \<Rightarrow> string \<Rightarrow> dats_val" where
  "DatsObj_get ob k = (case map_of (atts ob) k of None \<Rightarrow> PyNone | Some v \<Rightarrow> v)"

text \<open>Assignment in an ordered dictionary: an existing key keeps its place.\<close>

fun upd_att :: "string \<Rightarrow> dats_val \<Rightarrow> (string \<times> dats_val) list \<Rightarrow> (string \<times> dats_val) list" where
  "upd_att k v [] = [(k, v)]"
| "upd_att k v ((k', v') # kvs) =
     (if k' = k then (k, v) # kvs else (k', v') # upd_att k v kvs)"

definition DatsObj_set :: "addr \<Rightarrow> string \<Rightarrow> dats_val \<Rightarrow> heap \<Rightarrow> heap" where
  "DatsObj_set a k v h =
     h\<lparr>cells := (cells h)(a := (cells h a)\<lparr>atts := upd_att k v (atts (cells h a))\<rparr>)\<rparr>"

text \<open>
  \<^verbatim>\<open>obj.get(k).append(v)\<close> for a value \<open>v\<close> at hand: the list that is the value of the
  property grows in place. Anything but a list has no \<^verbatim>\<open>append\<close>.
\<close>

definition list_append :: "addr \<Rightarrow> string \<Rightarrow> dats_val \<Rightarrow> heap \<Rightarrow> error + heap" where
  "list_append a k v h =
     (case DatsObj_get (cells h a) k of
        Lst vs \<Rightarrow> Inr (DatsObj_set a k (Lst (vs @ [v])) h)
      | _ \<Rightarrow> Inl AttributeError)"

section \<open>gtex_v7_to_dats.py: command line\<close>

record args =
  dbgap_protected_metadata_path :: "string option"
  max_output_samples :: "int option"
  no_circular_links :: bool
  use_all_dbgap_subject_vars :: bool

section \<open>gtex_v7_to_dats.py: make_consent_group\<close>

text \<open>A row of the restricted Subject file; only these two columns are read.\<close>

record subject_row =
  SUBJID :: string
  CONSENT :: string

text \<open>
  The first loop of \<^verbatim>\<open>make_consent_group\<close>. \<^verbatim>\<open>dats_subject_d\<close> is the caller's dictionary (it is
  keyed by whatever \<^verbatim>\<open>get("name")\<close> gave, and is updated in place), \<^verbatim>\<open>dats_subjects_l\<close> are the
  objects, \<^verbatim>\<open>dats_subjects_idrefs_l\<close> the parallel list that becomes the members.
\<close>

fun consent_subjects ::
  "subject_row list \<Rightarrow> (dats_val \<rightharpoonup> addr) \<Rightarrow> addr list \<Rightarrow> dats_val list \<Rightarrow> heap \<Rightarrow>
     (dats_val \<rightharpoonup> addr) \<times> addr list \<times> dats_val list \<times> heap" where
  "consent_subjects [] dats_subject_d dats_subjects_l dats_subjects_idrefs_l h =
     (dats_subject_d, dats_subjects_l, dats_subjects_idrefs_l, h)"
| "consent_subjects (s # ss) dats_subject_d dats_subjects_l dats_subjects_idrefs_l h =
     (case dats_subject_d (Str (SUBJID s)) of
        None \<Rightarrow>
          (let (subject, h') =
                 DatsObj ''Material''
                   [(''name'', Str (SUBJID s)),
                    (''characteristics'', Lst []),
                    (''description'', Str (''GTEx subject '' @ SUBJID s))] h
           in consent_subjects ss (dats_subject_d(Str (SUBJID s) \<mapsto> subject))
                (dats_subjects_l @ [subject]) (dats_subjects_idrefs_l @ [Obj subject]) h')
      | Some ds \<Rightarrow>
          consent_subjects ss dats_subject_d
            (dats_subjects_l @ [ds]) (dats_subjects_idrefs_l @ [getIdRef ds]) h)"

definition consent_info_of :: "string \<Rightarrow> heap \<Rightarrow> error + addr \<times> heap" where
  "consent_info_of group_name h =
     (if group_name = ''General Research Use (GRU)'' then
        (let (ri, h1) =
               DatsObj ''RelatedIdentifier''
                 [(''identifier'', Str ''http://purl.obolibrary.org/obo/DUO_0000005'')] h
         in Inr (DatsObj ''ConsentInfo''
                   [(''name'', Str group_name),
                    (''abbreviation'', Str ''GRU''),
                    (''description'', Str group_name),
                    (''relatedIdentifiers'', Lst [Obj ri])] h1))
      else if group_name =
        ''Subjects did not participate in the study, did not complete a consent document and are included only for the pedigree structure and/or genotype controls, such as HapMap subjects''
      then
        Inr (DatsObj ''ConsentInfo''
               [(''name'', Str group_name), (''description'', Str group_name)] h)
      else Inl SysExit)"

text \<open>
  The loop that links each subject back to its group, written twice in the script (in
  \<^verbatim>\<open>make_consent_group\<close> and in \<^verbatim>\<open>main\<close>) with the same body:
  \<^verbatim>\<open>
  for s in dats_subjects_l:
      cl = s.get("characteristics")
      cl.append(DatsObj("Dimension", [("name", "member of study group"),
                                      ("values", [ group.getIdRef() ])]))
  \<close>
\<close>

fun link_back :: "addr \<Rightarrow> addr list \<Rightarrow> heap \<Rightarrow> error + heap" where
  "link_back grp [] h = Inr h"
| "link_back grp (s # ss) h =
     (case DatsObj_get (cells h s) ''characteristics'' of
        Lst cl \<Rightarrow>
          (let (dim, h1) =
                 DatsObj ''Dimension''
                   [(''name'', Str ''member of study group''), (''values'', Lst [getIdRef grp])] h
           in link_back grp ss (DatsObj_set s ''characteristics'' (Lst (cl @ [Obj dim])) h1))
      | _ \<Rightarrow> Inl AttributeError)"

definition make_consent_group ::
  "args \<Rightarrow> string \<Rightarrow> string \<Rightarrow> subject_row list \<Rightarrow> (dats_val \<rightharpoonup> addr) \<Rightarrow> heap \<Rightarrow>
     error + addr \<times> (dats_val \<rightharpoonup> addr) \<times> heap" where
  "make_consent_group a group_name group_index subject_l dats_subject_d h =
     (let (d1, dats_subjects_l, dats_subjects_idrefs_l, h1) =
            consent_subjects subject_l dats_subject_d [] [] h
      in case consent_info_of group_name h1 of
           Inl e \<Rightarrow> Inl e
         | Inr (consent_info, h2) \<Rightarrow>
             (let (grp, h3) =
                    DatsObj ''StudyGroup''
                      [(''name'', Str group_name),
                       (''members'', Lst dats_subjects_idrefs_l),
                       (''size'', Num (int (length dats_subjects_idrefs_l))),
                       (''consentInformation'', Lst [Obj consent_info])] h2
              in if no_circular_links a then Inr (grp, d1, h3)
                 else (case link_back grp dats_subjects_l h3 of
                         Inl e \<Rightarrow> Inl e
                       | Inr h4 \<Rightarrow> Inr (grp, d1, h4))))"

section \<open>gtex_v7_to_dats.py: the group of all subjects (main, lines 343-358)\<close>

definition main_all_subjects :: "args \<Rightarrow> addr list \<Rightarrow> heap \<Rightarrow> error + addr \<times> heap" where
  "main_all_subjects a dats_subjects_l h =
     (let (all_subjects, h1) =
            DatsObj ''StudyGroup''
              [(''name'', Str ''all subjects''),
               (''members'', Lst (map Obj dats_subjects_l)),
               (''size'', Num (int (length dats_subjects_l)))] h
      in if no_circular_links a then Inr (all_subjects, h1)
         else (case link_back all_subjects dats_subjects_l h1 of
                 Inl e \<Rightarrow> Inl e
               | Inr h2 \<Rightarrow> Inr (all_subjects, h2)))"

section \<open>gtex_v7_to_dats.py: add_restricted_data\<close>

text \<open>
  The dbGaP metadata arrives parsed. A variable of a variable report is a record of the keys the
  scripts read (\<^verbatim>\<open>var_name\<close>, \<^verbatim>\<open>id\<close>, \<^verbatim>\<open>description\<close>, here with the prefix dbgap) and, for the CONSENT variable, the list at
  \<^verbatim>\<open>['total']['stats']['values']\<close> whose entries carry \<^verbatim>\<open>code\<close>, \<^verbatim>\<open>count\<close> (the number that
  \<^verbatim>\<open>int()\<close> reads from it) and \<^verbatim>\<open>name\<close>. The metadata of a study maps a file type to the list
  at \<^verbatim>\<open>['var_report']['data']['vars']\<close>; the restricted metadata maps a study to a file type to
  the list at \<^verbatim>\<open>['data']['rows']\<close>.
\<close>

record consent_code =
  cvc_code :: string
  cvc_count :: int
  cvc_name :: string

record dbgap_var =
  dbgap_var_name :: string
  dbgap_id :: string
  dbgap_description :: string
  total_stats_values :: "consent_code list"

type_synonym study_metadata = "string \<rightharpoonup> dbgap_var list"

type_synonym restricted_metadata = "string \<rightharpoonup> (string \<rightharpoonup> subject_row list)"

text \<open>
  \<^verbatim>\<open>
  subjects_d = {}
  for s in subjects_l:
      name = s.get("name")
      if name in subjects_d:
          logging.fatal("duplicate GTEx subject name " + name)
          sys.exit(1)
      subjects_d[name] = s
  \<close>
  A list is not hashable, so it cannot be looked up in a dictionary; and the message of the
  fatal branch is built by concatenation, which raises TypeError unless the name is a string.
\<close>

fun index_subjects :: "addr list \<Rightarrow> heap \<Rightarrow> (dats_val \<rightharpoonup> addr) \<Rightarrow> error + (dats_val \<rightharpoonup> addr)" where
  "index_subjects [] h subjects_d = Inr subjects_d"
| "index_subjects (s # ss) h subjects_d =
     (case DatsObj_get (cells h s) ''name'' of
        Lst _ \<Rightarrow> Inl TypeError
      | name \<Rightarrow>
          if subjects_d name \<noteq> None then (if is_Str name then Inl SysExit else Inl TypeError)
          else index_subjects ss h (subjects_d(name \<mapsto> s)))"

text \<open>
  \<^verbatim>\<open>
  for s in subj['data']['rows']:
      cg = s['CONSENT']
      if cg not in cid_to_subjects:
          cid_to_subjects[cg] = []
      cid_to_subjects[cg].append(s)
  \<close>
  The dictionary is iterated later, in insertion order: it is an association list.
\<close>

definition cid_append ::
  "string \<Rightarrow> subject_row \<Rightarrow> (string \<times> subject_row list) list \<Rightarrow> (string \<times> subject_row list) list" where
  "cid_append cg s m =
     (if cg \<in> fst ` set m
      then map (\<lambda>(k, v). if k = cg then (k, v @ [s]) else (k, v)) m
      else m @ [(cg, [s])])"

fun group_by_consent ::
  "subject_row list \<Rightarrow> (string \<times> subject_row list) list \<Rightarrow> (string \<times> subject_row list) list" where
  "group_by_consent [] m = m"
| "group_by_consent (s # ss) m = group_by_consent ss (cid_append (CONSENT s) s m)"

text \<open>
  \<^verbatim>\<open>re.search(r'\.c\d+$', c['id'])\<close>: the text ends (or ends before one final newline) with a dot,
  the letter c and one or more digits. Characters are bytes here, so the digits are the ASCII
  ones.
\<close>

definition is_digit :: "char \<Rightarrow> bool" where
  "is_digit c = (c \<in> set ''0123456789'')"

definition consent_suffix :: "string \<Rightarrow> bool" where
  "consent_suffix s =
     (let s' = (if s \<noteq> [] \<and> last s = CHR 0x0A then butlast s else s);
          digits = takeWhile is_digit (rev s');
          before = drop (length digits) (rev s')
      in digits \<noteq> [] \<and> take 2 before = ''c.'')"

text \<open>
  The loop over the consent groups:
  \<^verbatim>\<open>
  for cid in cid_to_subjects:
      slist = cid_to_subjects[cid]
      n_subjects = len(slist)
      cvc = code_to_c_var[cid]
      if n_subjects != int(cvc['count']):
          logging.fatal(...); sys.exit(1)
      study_group = make_consent_group(args, cvc['name'], cid, slist, subjects_d)
      study.get("studyGroups").append(study_group)
  \<close>
\<close>

fun consent_groups ::
  "args \<Rightarrow> (string \<times> subject_row list) list \<Rightarrow> (string \<rightharpoonup> consent_code) \<Rightarrow> addr \<Rightarrow>
     (dats_val \<rightharpoonup> addr) \<Rightarrow> heap \<Rightarrow> error + (dats_val \<rightharpoonup> addr) \<times> heap" where
  "consent_groups a [] code_to_c_var study subjects_d h = Inr (subjects_d, h)"
| "consent_groups a ((cid, slist) # rest) code_to_c_var study subjects_d h =
     (case code_to_c_var cid of
        None \<Rightarrow> Inl KeyError
      | Some cvc \<Rightarrow>
          if int (length slist) \<noteq> cvc_count cvc then Inl SysExit
          else (case make_consent_group a (cvc_name cvc) cid slist subjects_d h of
                  Inl e \<Rightarrow> Inl e
                | Inr (study_group, d1, h1) \<Rightarrow>
                    (case list_append study ''studyGroups'' (Obj study_group) h1 of
                       Inl e \<Rightarrow> Inl e
                     | Inr h2 \<Rightarrow> consent_groups a rest code_to_c_var study d1 h2)))"

text \<open>
  \<^verbatim>\<open>ccmm.gtex.restricted_metadata.read_study_metadata\<close> and
  \<^verbatim>\<open>ccmm.gtex.dna_extracts.update_subjects_from_restricted_metadata\<close> are not among the sources:
  they are parameters. The arguments \<^verbatim>\<open>cache\<close> and \<^verbatim>\<open>samples_d\<close> are only handed on or unused.
\<close>

definition add_restricted_data ::
  "(string \<Rightarrow> restricted_metadata) \<Rightarrow>
   (addr \<Rightarrow> study_metadata \<Rightarrow> (string \<rightharpoonup> subject_row list) \<Rightarrow> (dats_val \<rightharpoonup> addr) \<Rightarrow> bool \<Rightarrow>
      heap \<Rightarrow> error + heap) \<Rightarrow>
   args \<Rightarrow> study_metadata \<Rightarrow> addr list \<Rightarrow> addr \<Rightarrow> string \<Rightarrow> heap \<Rightarrow> error + heap" where
  "add_restricted_data read_study_metadata update_subjects_from_restricted_metadata
       a study_md subjects_l study study_id h =
     (case dbgap_protected_metadata_path a of
        None \<Rightarrow> Inr h
      | Some restricted_mp \<Rightarrow>
     (case index_subjects subjects_l h Map.empty of
        Inl e \<Rightarrow> Inl e
      | Inr subjects_d \<Rightarrow>
     (let study_restricted_md = read_study_metadata restricted_mp in
      case study_restricted_md ''phs000424.v7'' of
        None \<Rightarrow> Inl KeyError
      | Some d \<Rightarrow>
     (case d ''Subject'' of
        None \<Rightarrow> Inl KeyError
      | Some rows \<Rightarrow>
     (let cid_to_subjects = group_by_consent rows [] in
      case study_md ''Subject'' of
        None \<Rightarrow> Inl KeyError
      | Some vars \<Rightarrow>
     (case filter (\<lambda>c. dbgap_var_name c = ''CONSENT'' \<and> \<not> consent_suffix (dbgap_id c)) vars of
        [c_var] \<Rightarrow>
          (let code_to_c_var =
                 fold (\<lambda>cvc m. m(cvc_code cvc \<mapsto> cvc)) (total_stats_values c_var) Map.empty
           in case consent_groups a cid_to_subjects code_to_c_var study subjects_d h of
                Inl e \<Rightarrow> Inl e
              | Inr (subjects_d', h') \<Rightarrow>
                  (case study_restricted_md study_id of
                     None \<Rightarrow> Inl KeyError
                   | Some rmd \<Rightarrow>
                       update_subjects_from_restricted_metadata study study_md rmd subjects_d'
                         (use_all_dbgap_subject_vars a) h'))
      | _ \<Rightarrow> Inl SysExit))))))"

text \<open>
  The only call of \<^verbatim>\<open>add_restricted_data\<close> (main, lines 399-402), where \<^verbatim>\<open>restricted_mp\<close> is
  \<^verbatim>\<open>args.dbgap_protected_metadata_path\<close>:
  \<^verbatim>\<open>
  if restricted_mp is not None:
      add_restricted_data(cache, args, dbgap_study_md, dats_subjects_l, dats_samples_d,
                          dats_study, study_id)
  \<close>
\<close>

definition main_restricted_data ::
  "(string \<Rightarrow> restricted_metadata) \<Rightarrow>
   (addr \<Rightarrow> study_metadata \<Rightarrow> (string \<rightharpoonup> subject_row list) \<Rightarrow> (dats_val \<rightharpoonup> addr) \<Rightarrow> bool \<Rightarrow>
      heap \<Rightarrow> error + heap) \<Rightarrow>
   args \<Rightarrow> study_metadata \<Rightarrow> addr list \<Rightarrow> addr \<Rightarrow> string \<Rightarrow> heap \<Rightarrow> error + heap" where
  "main_restricted_data read_study_metadata update_subjects_from_restricted_metadata
       a dbgap_study_md dats_subjects_l dats_study study_id h =
     (if dbgap_protected_metadata_path a \<noteq> None
      then add_restricted_data read_study_metadata update_subjects_from_restricted_metadata
             a dbgap_study_md dats_subjects_l dats_study study_id h
      else Inr h)"

section \<open>gtex_v7_to_dats.py: the samples of the study (main, lines 373-379)\<close>

text \<open>
  \<^verbatim>\<open>sorted(..., key=lambda s: s.get("name"))\<close>. Python's sort is stable, has no test of its
  own on the keys, and compares them with \<^verbatim>\<open><\<close>: strings compare lexicographically by code
  point (the byte order of their UTF-8 encoding), integers by value, and a comparison of a
  string with an integer, or of \<^verbatim>\<open>None\<close> with anything, raises TypeError. A list of at most one
  sample is returned without any comparison. With two or more samples:
  \<^item> names that are all strings, or all integers, are sorted;
  \<^item> names that are strings, integers or \<^verbatim>\<open>None\<close>, but neither all strings nor all integers,
    make the sort compare two keys that have no order, so it raises TypeError;
  \<^item> a name that is a list, a Node or a Reference is outside the model (the order of Nodes is
    that of the class \<^verbatim>\<open>DatsObj\<close>, which is not among the sources, and whether a sort of lists
    raises depends on the pairs the algorithm happens to compare): the answer is \<open>None\<close>, which
    says nothing about the program.
\<close>

definition name_of :: "heap \<Rightarrow> addr \<Rightarrow> dats_val" where
  "name_of h s = DatsObj_get (cells h s) ''name''"

fun is_Num :: "dats_val \<Rightarrow> bool" where
  "is_Num (Num _) = True"
| "is_Num _ = False"

fun num_of :: "dats_val \<Rightarrow> int" where
  "num_of (Num n) = n"
| "num_of _ = 0"

fun is_scalar :: "dats_val \<Rightarrow> bool" where
  "is_scalar PyNone = True"
| "is_scalar (Str _) = True"
| "is_scalar (Num _) = True"
| "is_scalar _ = False"

definition sorted_by_name :: "heap \<Rightarrow> addr list \<Rightarrow> (error + addr list) option" where
  "sorted_by_name h xs =
     (if length xs \<le> 1 then Some (Inr xs)
      else if list_all (\<lambda>s. is_Str (name_of h s)) xs
      then Some (Inr (sort_key (\<lambda>s. str_of (name_of h s)) xs))
      else if list_all (\<lambda>s. is_Num (name_of h s)) xs
      then Some (Inr (sort_key (\<lambda>s. num_of (name_of h s)) xs))
      else if list_all (\<lambda>s. is_scalar (name_of h s)) xs
      then Some (Inl TypeError)
      else None)"

text \<open>The slice \<^verbatim>\<open>xs[0:n]\<close>; a negative bound counts from the end.\<close>

definition slice_to :: "'a list \<Rightarrow> int \<Rightarrow> 'a list" where
  "slice_to xs n = (if 0 \<le> n then take (nat n) xs else take (nat (int (length xs) + n)) xs)"

text \<open>
  \<^verbatim>\<open>
  dats_samples_l = sorted([dats_samples_d[s] for s in dats_samples_d], key=lambda s: s.get("name"))
  if args.max_output_samples is not None:
      dats_samples_l = dats_samples_l[0:int(args.max_output_samples)]
  dbgap_study_dataset.set("isAbout", dats_samples_l)
  \<close>
  \<^verbatim>\<open>dats_samples_d\<close> is the dictionary of the samples, in insertion order. The answer is
  \<open>None\<close> where \<open>sorted_by_name\<close> gives none.
\<close>

definition main_isAbout ::
  "args \<Rightarrow> ('k \<times> addr) list \<Rightarrow> addr \<Rightarrow> heap \<Rightarrow> (error + heap) option" where
  "main_isAbout a dats_samples_d dbgap_study_dataset h =
     (case sorted_by_name h (map snd dats_samples_d) of
        None \<Rightarrow> None
      | Some (Inl e) \<Rightarrow> Some (Inl e)
      | Some (Inr dats_samples_l) \<Rightarrow>
          (let dats_samples_l' =
                 (case max_output_samples a of
                    None \<Rightarrow> dats_samples_l
                  | Some n \<Rightarrow> slice_to dats_samples_l n)
           in Some (Inr (DatsObj_set dbgap_study_dataset ''isAbout''
                           (Lst (map Obj dats_samples_l')) h))))"

section \<open>topmed_to_dats.py: add_study_vars\<close>

text \<open>
  The loop that creates a Dimension for each variable; \<^verbatim>\<open>dbgap_vars\<close> maps a dbGaP id to its
  Dimension. The Dimension is appended to the study before the id is checked.
\<close>

fun study_var_dims ::
  "dbgap_var list \<Rightarrow> addr \<Rightarrow> (string \<rightharpoonup> addr) \<Rightarrow> heap \<Rightarrow> error + (string \<rightharpoonup> addr) \<times> heap" where
  "study_var_dims [] study dbgap_vars h = Inr (dbgap_vars, h)"
| "study_var_dims (var # vars) study dbgap_vars h =
     (let (ident, h1) =
            DatsObj ''Identifier''
              [(''identifier'', Str (dbgap_id var)), (''identifierSource'', Str ''dbGaP'')] h;
          (ann, h2) = DatsObj ''Annotation'' [(''value'', Str (dbgap_var_name var))] h1;
          (dim, h3) =
            DatsObj ''Dimension''
              [(''identifier'', Obj ident), (''name'', Obj ann),
               (''description'', Str (dbgap_description var))] h2
      in case list_append study ''dimensions'' (Obj dim) h3 of
           Inl e \<Rightarrow> Inl e
         | Inr h4 \<Rightarrow>
             if dbgap_vars (dbgap_id var) \<noteq> None then Inl SysExit
             else study_var_dims vars study (dbgap_vars(dbgap_id var \<mapsto> dim)) h4)"

text \<open>
  \<^verbatim>\<open>
  for var_type in ('Subject', 'Subject_Phenotypes', 'Sample', 'Sample_Attributes'):
      if var_type in study_md:
          all_vars.extend(study_md[var_type]['var_report']['data']['vars'])
  \<close>
\<close>

definition all_vars :: "study_metadata \<Rightarrow> dbgap_var list" where
  "all_vars study_md =
     concat (map (\<lambda>var_type. case study_md var_type of None \<Rightarrow> [] | Some vars \<Rightarrow> vars)
               [''Subject'', ''Subject_Phenotypes'', ''Sample'', ''Sample_Attributes''])"

definition add_study_vars :: "addr \<Rightarrow> study_metadata \<Rightarrow> heap \<Rightarrow> error + (string \<rightharpoonup> addr) \<times> heap" where
  "add_study_vars study study_md h = study_var_dims (all_vars study_md) study Map.empty h"

section \<open>rdflib_list_dataset_variables.py\<close>

text \<open>
  An rdflib graph is a set of triples, and \<^verbatim>\<open>g.triples(pattern)\<close> yields the triples that match
  a pattern (\<^verbatim>\<open>None\<close> matches anything) in the order of the store: the graph is the list of its
  triples in that order. The terms (URIRef, BNode, Literal) are of a type \<open>'t\<close> with the linear
  order that \<^verbatim>\<open>sort\<close> compares them by. The module \<^verbatim>\<open>rdflib_util\<close> is not among the sources:
  the terms it names are a parameter, the record \<open>ru\<close>.
\<close>

type_synonym 't triple = "'t \<times> 't \<times> 't"

record 't ru =
  DATS_DATASET_TERM :: 't
  DATS_DIMENSION_TERM :: 't
  RDF_TYPE_TERM :: 't
  CENTRAL_ID_TERM :: 't
  SDO_IDENT_TERM :: 't
  HAS_PART_TERM :: 't
  DESCR_TERM :: 't
  NAME_TERM :: 't
  SDO_VALUE_TERM :: 't

definition triples :: "'t triple list \<Rightarrow> 't option \<times> 't option \<times> 't option \<Rightarrow> 't triple list" where
  "triples g pat =
     (case pat of (ps, pp, po) \<Rightarrow>
        filter (\<lambda>(s, p, o'). (ps = None \<or> ps = Some s) \<and> (pp = None \<or> pp = Some p) \<and>
                             (po = None \<or> po = Some o')) g)"

text \<open>\<^verbatim>\<open>all_datasets = [s for (s,p,o) in g.triples((None, None, ru.DATS_DATASET_TERM))]\<close>\<close>

definition all_datasets :: "'t ru \<Rightarrow> 't triple list \<Rightarrow> 't list" where
  "all_datasets ru g = map fst (triples g (None, None, Some (DATS_DATASET_TERM ru)))"

text \<open>
  The values \<^verbatim>\<open>o2\<close> that the two nested loops
  \<^verbatim>\<open>
  for (s,p,o) in g.triples((x, p1, None)):
      for (s2,p2,o2) in g.triples((o, p2, None)):
  \<close>
  run through, in order. The script has this nest three times, each time with the body
  \<^verbatim>\<open>m[x] = o2\<close>.
\<close>

definition two_hop :: "'t triple list \<Rightarrow> 't \<Rightarrow> 't \<Rightarrow> 't \<Rightarrow> 't list" where
  "two_hop g x p1 p2 =
     concat (map (\<lambda>(s, p, o'). map (\<lambda>(s2, p2', o2). o2) (triples g (Some o', Some p2, None)))
               (triples g (Some x, Some p1, None)))"

text \<open>
  \<^verbatim>\<open>
  for d in all_datasets:
      for (s,p,o) in g.triples((d,ru.CENTRAL_ID_TERM,None)):
          for (s2,p2,o2) in g.triples((o, ru.SDO_IDENT_TERM, None)):
              dataset_ids[d] = o2
      if d in dataset_ids:
          datasets.append(d)
  \<close>
\<close>

fun dataset_ids_loop ::
  "'t ru \<Rightarrow> 't triple list \<Rightarrow> 't list \<Rightarrow> ('t \<rightharpoonup> 't) \<Rightarrow> 't list \<Rightarrow> ('t \<rightharpoonup> 't) \<times> 't list" where
  "dataset_ids_loop ru g [] dataset_ids datasets = (dataset_ids, datasets)"
| "dataset_ids_loop ru g (d # ds) dataset_ids datasets =
     (let dataset_ids' =
            fold (\<lambda>o2 m. m(d \<mapsto> o2)) (two_hop g d (CENTRAL_ID_TERM ru) (SDO_IDENT_TERM ru))
              dataset_ids
      in dataset_ids_loop ru g ds dataset_ids'
           (if dataset_ids' d \<noteq> None then datasets @ [d] else datasets))"

text \<open>
  \<^verbatim>\<open>
  datasets = [d for d in datasets
              if (dataset_id is None) or (rdflib.term.Literal(dataset_id) == dataset_ids[d])]
  \<close>
  The argument \<open>dataset_id\<close> of the model is \<^verbatim>\<open>None\<close> or the term \<^verbatim>\<open>Literal(dataset_id)\<close>.
  Every member of \<^verbatim>\<open>datasets\<close> is a key of \<^verbatim>\<open>dataset_ids\<close>.
\<close>

definition filter_datasets :: "'t option \<Rightarrow> ('t \<rightharpoonup> 't) \<Rightarrow> 't list \<Rightarrow> 't list" where
  "filter_datasets dataset_id dataset_ids datasets =
     filter (\<lambda>d. dataset_id = None \<or> dataset_id = dataset_ids d) datasets"

text \<open>
  \<^verbatim>\<open>
  dims = []
  for (s,p,o) in g.triples((d, ru.HAS_PART_TERM, None)):
      for (s2,p2,o2) in g.triples((o, ru.RDF_TYPE_TERM, ru.DATS_DIMENSION_TERM)):
          dims.append(o)
  dataset_dims[d] = dims
  \<close>
  \<^verbatim>\<open>dataset_dims\<close> is read only at members of \<^verbatim>\<open>datasets\<close>, where it holds this list.
\<close>

definition dataset_dims :: "'t ru \<Rightarrow> 't triple list \<Rightarrow> 't \<Rightarrow> 't list" where
  "dataset_dims ru g d =
     concat (map (\<lambda>(s, p, o').
                    map (\<lambda>_. o')
                      (triples g (Some o', Some (RDF_TYPE_TERM ru), Some (DATS_DIMENSION_TERM ru))))
               (triples g (Some d, Some (HAS_PART_TERM ru), None)))"

text \<open>
  The three dictionaries of the Dimensions, each filled by
  \<^verbatim>\<open>for d in datasets: for dim in dataset_dims[d]: ...\<close>.
\<close>

definition dim_descrs :: "'t ru \<Rightarrow> 't triple list \<Rightarrow> 't list \<Rightarrow> ('t \<rightharpoonup> 't)" where
  "dim_descrs ru g datasets =
     fold (\<lambda>dim m. fold (\<lambda>(s, p, o') m. m(dim \<mapsto> o'))
                      (triples g (Some dim, Some (DESCR_TERM ru), None)) m)
       (concat (map (dataset_dims ru g) datasets)) Map.empty"

definition dim_ids :: "'t ru \<Rightarrow> 't triple list \<Rightarrow> 't list \<Rightarrow> ('t \<rightharpoonup> 't)" where
  "dim_ids ru g datasets =
     fold (\<lambda>dim m. fold (\<lambda>o2 m. m(dim \<mapsto> o2))
                      (two_hop g dim (CENTRAL_ID_TERM ru) (SDO_IDENT_TERM ru)) m)
       (concat (map (dataset_dims ru g) datasets)) Map.empty"

definition dim_names :: "'t ru \<Rightarrow> 't triple list \<Rightarrow> 't list \<Rightarrow> ('t \<rightharpoonup> 't)" where
  "dim_names ru g datasets =
     fold (\<lambda>dim m. fold (\<lambda>o2 m. m(dim \<mapsto> o2))
                      (two_hop g dim (NAME_TERM ru) (SDO_VALUE_TERM ru)) m)
       (concat (map (dataset_dims ru g) datasets)) Map.empty"

text \<open>
  \<^verbatim>\<open>
  datasets_with_ids = [{"d":d, "i":dataset_ids[d]} for d in datasets if d in dataset_ids]
  datasets_with_ids.sort(key=lambda x: x["i"])
  \<close>
  up to which the function is \<open>selected_datasets\<close>; \<^verbatim>\<open>sort\<close> is stable, as \<open>sort_key\<close> is.
\<close>

definition selected_datasets :: "'t::linorder ru \<Rightarrow> 't triple list \<Rightarrow> 't option \<Rightarrow> ('t \<times> 't) list" where
  "selected_datasets ru g dataset_id =
     (let (dataset_ids, datasets0) = dataset_ids_loop ru g (all_datasets ru g) Map.empty [];
          datasets = filter_datasets dataset_id dataset_ids datasets0;
          datasets_with_ids =
            List.map_filter (\<lambda>d. case dataset_ids d of None \<Rightarrow> None | Some i \<Rightarrow> Some (d, i))
              datasets
      in sort_key snd datasets_with_ids)"

text \<open>
  \<^verbatim>\<open>
  dims_with_atts = [{"d":d, "descr": dim_descrs[d], "id": dim_ids[d], "name": dim_names[d] }
                    for d in dims if d in dim_ids]
  \<close>
  A key that a dictionary lacks raises KeyError.
\<close>

record 't dim_atts =
  da_d :: 't
  da_descr :: 't
  da_id :: 't
  da_name :: 't

fun dims_with_atts ::
  "('t \<rightharpoonup> 't) \<Rightarrow> ('t \<rightharpoonup> 't) \<Rightarrow> ('t \<rightharpoonup> 't) \<Rightarrow> 't list \<Rightarrow> error + 't dim_atts list" where
  "dims_with_atts descrs ids names [] = Inr []"
| "dims_with_atts descrs ids names (d # dims) =
     (case ids d of
        None \<Rightarrow> dims_with_atts descrs ids names dims
      | Some i \<Rightarrow>
          (case descrs d of
             None \<Rightarrow> Inl KeyError
           | Some descr \<Rightarrow>
               (case names d of
                  None \<Rightarrow> Inl KeyError
                | Some name \<Rightarrow>
                    (case dims_with_atts descrs ids names dims of
                       Inl e \<Rightarrow> Inl e
                     | Inr rest \<Rightarrow>
                         Inr (\<lparr>da_d = d, da_descr = descr, da_id = i, da_name = name\<rparr> # rest)))))"

record 't row =
  study :: 't
  var_dbgap_id :: 't
  var_name :: 't
  var_descr :: 't

text \<open>
  \<^verbatim>\<open>
  for ds in datasets_with_ids:
      dims = dataset_dims[ds['d']]
      dims_with_atts = [...]
      dims_with_atts.sort(key = lambda x: x["id"])
      for d in dims_with_atts:
          variables_l.append({"study": ds["i"], "var_dbgap_id": d["id"],
                              "var_name": d["name"], "var_descr": d["descr"] })
  \<close>
\<close>

fun variables_loop ::
  "'t::linorder ru \<Rightarrow> 't triple list \<Rightarrow> ('t \<rightharpoonup> 't) \<Rightarrow> ('t \<rightharpoonup> 't) \<Rightarrow> ('t \<rightharpoonup> 't) \<Rightarrow> ('t \<times> 't) list \<Rightarrow>
     error + 't row list" where
  "variables_loop ru g descrs ids names [] = Inr []"
| "variables_loop ru g descrs ids names ((d, i) # rest) =
     (case dims_with_atts descrs ids names (dataset_dims ru g d) of
        Inl e \<Rightarrow> Inl e
      | Inr dwa \<Rightarrow>
          (case variables_loop ru g descrs ids names rest of
             Inl e \<Rightarrow> Inl e
           | Inr rows \<Rightarrow>
               Inr (map (\<lambda>x. \<lparr>study = i, var_dbgap_id = da_id x, var_name = da_name x,
                               var_descr = da_descr x\<rparr>)
                      (sort_key da_id dwa) @ rows)))"

definition list_dataset_variables ::
  "'t::linorder ru \<Rightarrow> 't triple list \<Rightarrow> 't option \<Rightarrow> error + 't row list" where
  "list_dataset_variables ru g dataset_id =
     (let (dataset_ids, datasets0) = dataset_ids_loop ru g (all_datasets ru g) Map.empty [];
          datasets = filter_datasets dataset_id dataset_ids datasets0
      in variables_loop ru g (dim_descrs ru g datasets) (dim_ids ru g datasets)
           (dim_names ru g datasets) (selected_datasets ru g dataset_id))"

section \<open>Notions used in the statements\<close>

text \<open>
  The objects that \<^verbatim>\<open>make_consent_group\<close> builds, and the store after the Dimension of a
  back-link has been allocated.
\<close>

definition new_subject :: "subject_row \<Rightarrow> dats_obj" where
  "new_subject s =
     \<lparr>dats_type = ''Material'',
      atts = [(''name'', Str (SUBJID s)), (''characteristics'', Lst []),
              (''description'', Str (''GTEx subject '' @ SUBJID s))]\<rparr>"

definition new_group :: "string \<Rightarrow> dats_val list \<Rightarrow> addr \<Rightarrow> dats_obj" where
  "new_group group_name members consent_info =
     \<lparr>dats_type = ''StudyGroup'',
      atts = [(''name'', Str group_name), (''members'', Lst members),
              (''size'', Num (int (length members))),
              (''consentInformation'', Lst [Obj consent_info])]\<rparr>"

definition alloc_dim :: "addr \<Rightarrow> heap \<Rightarrow> heap" where
  "alloc_dim g h = snd (DatsObj ''Dimension''
              [(''name'', Str ''member of study group''), (''values'', Lst [getIdRef g])] h)"

text \<open>
  A store with one subject from the public metadata, and the rows of a consent group that
  name it, a subject the public metadata lacks, and that one again.
\<close>

definition gtex1 :: dats_obj where
  "gtex1 = \<lparr>dats_type = ''Material'',
            atts = [(''name'', Str ''GTEX-1''), (''characteristics'', Lst [])]\<rparr>"

definition heap0 :: heap where
  "heap0 = \<lparr>cells = (\<lambda>_. \<lparr>dats_type = [], atts = []\<rparr>)(0 := gtex1), next_addr = 1\<rparr>"

definition args_acyclic :: args where
  "args_acyclic = \<lparr>dbgap_protected_metadata_path = Some ''restricted'', max_output_samples = None,
                   no_circular_links = True, use_all_dbgap_subject_vars = False\<rparr>"

definition args_linked :: args where
  "args_linked = args_acyclic\<lparr>no_circular_links := False\<rparr>"

definition rows0 :: "subject_row list" where
  "rows0 = [\<lparr>SUBJID = ''GTEX-1'', CONSENT = ''1''\<rparr>, \<lparr>SUBJID = ''GTEX-2'', CONSENT = ''1''\<rparr>,
            \<lparr>SUBJID = ''GTEX-2'', CONSENT = ''1''\<rparr>]"

definition subjects0 :: "dats_val \<rightharpoonup> addr" where
  "subjects0 = [Str ''GTEX-1'' \<mapsto> 0]"

text \<open>
  A store with two subjects of the same name; the options of a run on public metadata only;
  collaborators that read nothing and change nothing.
\<close>

definition heap_twins :: heap where
  "heap_twins =
     \<lparr>cells = (\<lambda>_. \<lparr>dats_type = [], atts = []\<rparr>)(0 := gtex1, 1 := gtex1), next_addr = 2\<rparr>"

definition args_public :: args where
  "args_public = args_acyclic\<lparr>dbgap_protected_metadata_path := None\<rparr>"

definition read_nothing :: "string \<Rightarrow> restricted_metadata" where
  "read_nothing path = Map.empty"

definition update_nothing ::
  "addr \<Rightarrow> study_metadata \<Rightarrow> (string \<rightharpoonup> subject_row list) \<Rightarrow> (dats_val \<rightharpoonup> addr) \<Rightarrow> bool \<Rightarrow>
     heap \<Rightarrow> error + heap" where
  "update_nothing st study_md rmd subjects_d use_all h = Inr h"

text \<open>
  A study Dataset with an empty list of dimensions, and metadata in which the Subject and the
  Sample report each define a variable with the accession phv00000001.v1.
\<close>

definition heap_study :: heap where
  "heap_study =
     \<lparr>cells = (\<lambda>_. \<lparr>dats_type = [], atts = []\<rparr>)
                (0 := \<lparr>dats_type = ''Dataset'', atts = [(''dimensions'', Lst [])]\<rparr>),
      next_addr = 1\<rparr>"

definition md_duplicate :: study_metadata where
  "md_duplicate =
     [''Subject'' \<mapsto>
        [\<lparr>dbgap_var_name = ''SUBJID'', dbgap_id = ''phv00000001.v1'',
          dbgap_description = ''Subject ID'', total_stats_values = []\<rparr>],
      ''Sample'' \<mapsto>
        [\<lparr>dbgap_var_name = ''SAMPID'', dbgap_id = ''phv00000001.v1'',
          dbgap_description = ''Sample ID'', total_stats_values = []\<rparr>]]"

text \<open>
  Three samples and the study Dataset; the dictionary of the samples lists them out of order;
  a run with \<^verbatim>\<open>--max_output_samples -1\<close>, and one with \<^verbatim>\<open>--max_output_samples 2\<close>. In
  \<open>heap_numbered\<close> the names of the first two samples are the integers 7 and 12.
\<close>

definition sample_obj :: "string \<Rightarrow> dats_obj" where
  "sample_obj n = \<lparr>dats_type = ''Material'', atts = [(''name'', Str n)]\<rparr>"

definition heap_samples :: heap where
  "heap_samples =
     \<lparr>cells = (\<lambda>_. \<lparr>dats_type = [], atts = []\<rparr>)
                (0 := sample_obj ''GTEX-A'', 1 := sample_obj ''GTEX-B'', 2 := sample_obj ''GTEX-C'',
                 3 := \<lparr>dats_type = ''Dataset'', atts = [(''isAbout'', Lst [])]\<rparr>),
      next_addr = 4\<rparr>"

definition heap_numbered :: heap where
  "heap_numbered =
     \<lparr>cells = (\<lambda>_. \<lparr>dats_type = [], atts = []\<rparr>)
                (0 := \<lparr>dats_type = ''Material'', atts = [(''name'', Num 7)]\<rparr>,
                 1 := \<lparr>dats_type = ''Material'', atts = [(''name'', Num 12)]\<rparr>,
                 2 := \<lparr>dats_type = ''Material'', atts = [(''name'', Str ''GTEX-C'')]\<rparr>,
                 3 := \<lparr>dats_type = ''Dataset'', atts = [(''isAbout'', Lst [])]\<rparr>),
      next_addr = 4\<rparr>"

definition samples_d0 :: "(string \<times> addr) list" where
  "samples_d0 = [(''c'', 2), (''a'', 0), (''b'', 1)]"

definition args_minus_one :: args where
  "args_minus_one = args_public\<lparr>max_output_samples := Some (- 1)\<rparr>"

definition args_two :: args where
  "args_two = args_public\<lparr>max_output_samples := Some 2\<rparr>"

text \<open>
  Python's \<^verbatim>\<open><=\<close> between two names, where both are strings or both are integers.
\<close>

fun name_le :: "dats_val \<Rightarrow> dats_val \<Rightarrow> bool" where
  "name_le (Str a) (Str b) = (a \<le> b)"
| "name_le (Num a) (Num b) = (a \<le> b)"
| "name_le _ _ = False"

text \<open>What makes a list the samples sorted ascending by name, as a stable sort leaves them.\<close>

definition sorted_by_name_of :: "heap \<Rightarrow> addr list \<Rightarrow> addr list \<Rightarrow> bool" where
  "sorted_by_name_of h xs l \<longleftrightarrow>
     mset l = mset xs \<and>
     sorted_wrt (\<lambda>s t. name_le (name_of h s) (name_of h t)) l \<and>
     (\<forall>n. filter (\<lambda>s. name_of h s = n) l = filter (\<lambda>s. name_of h s = n) xs)"

definition samples_numbered :: "(string \<times> addr) list" where
  "samples_numbered = [(''b'', 1), (''a'', 0)]"

text \<open>
  The order claimed for the rows of list_dataset_variables: by the study accession, then by
  the variable accession.
\<close>

definition ordered_by_study_then_var :: "'t::linorder row list \<Rightarrow> bool" where
  "ordered_by_study_then_var rows =
     sorted_wrt (\<lambda>r1 r2. study r1 < study r2 \<or>
                          (study r1 = study r2 \<and> var_dbgap_id r1 \<le> var_dbgap_id r2)) rows"

text \<open>
  Graphs whose terms are written as strings, with the terms that the comments of the script
  name. \<open>g_no_description\<close>: one Dataset with its identifier and one Dimension that has an
  identifier and a name but no description. \<open>g_one_var\<close>: the same with the description.
  \<open>g_two_vars\<close>: a second Dimension with another accession. \<open>g_same_var\<close>: a second Dimension
  node whose accession, name and description are those of the first. \<open>g_matched_twice\<close>:
  \<open>g_two_vars\<close> with a second triple, of another predicate, from the Dataset to the Dataset
  class. \<open>g_not_declared\<close>: \<open>g_one_var\<close> in which the node is linked to the Dataset class by
  that other predicate only, and has no \<open>rdf:type\<close> at all.
\<close>

definition ru0 :: "string ru" where
  "ru0 = \<lparr>DATS_DATASET_TERM = ''obo:IAO_0000100'',
          DATS_DIMENSION_TERM = ''obo:STATO_0000258'',
          RDF_TYPE_TERM = ''rdf:type'',
          CENTRAL_ID_TERM = ''obo:IAO_0000577'',
          SDO_IDENT_TERM = ''sdo:identifier'',
          HAS_PART_TERM = ''obo:BFO_0000051'',
          DESCR_TERM = ''obo:IAO_0000300'',
          NAME_TERM = ''obo:IAO_0000590'',
          SDO_VALUE_TERM = ''sdo:value''\<rparr>"

definition g_dataset_node :: "string triple list" where
  "g_dataset_node =
     [(''D1'', ''obo:IAO_0000577'', ''D1id''),
      (''D1id'', ''sdo:identifier'', ''phs000424.v7.p2''),
      (''D1'', ''obo:BFO_0000051'', ''V1''),
      (''V1'', ''rdf:type'', ''obo:STATO_0000258''),
      (''V1'', ''obo:IAO_0000577'', ''V1id''),
      (''V1id'', ''sdo:identifier'', ''phv00169061.v7.p2''),
      (''V1'', ''obo:IAO_0000590'', ''V1name''),
      (''V1name'', ''sdo:value'', ''AGE'')]"

definition g_no_description :: "string triple list" where
  "g_no_description = (''D1'', ''rdf:type'', ''obo:IAO_0000100'') # g_dataset_node"

definition g_one_var :: "string triple list" where
  "g_one_var = g_no_description @ [(''V1'', ''obo:IAO_0000300'', ''Age of the subject'')]"

definition g_not_declared :: "string triple list" where
  "g_not_declared =
     (''D1'', ''sdo:additionalType'', ''obo:IAO_0000100'') # g_dataset_node @
     [(''V1'', ''obo:IAO_0000300'', ''Age of the subject'')]"

definition g_two_vars :: "string triple list" where
  "g_two_vars =
     g_one_var @
     [(''D1'', ''obo:BFO_0000051'', ''V2''),
      (''V2'', ''rdf:type'', ''obo:STATO_0000258''),
      (''V2'', ''obo:IAO_0000577'', ''V2id''),
      (''V2id'', ''sdo:identifier'', ''phv00169062.v7.p2''),
      (''V2'', ''obo:IAO_0000590'', ''V2name''),
      (''V2name'', ''sdo:value'', ''SEX''),
      (''V2'', ''obo:IAO_0000300'', ''Sex of the subject'')]"

definition g_matched_twice :: "string triple list" where
  "g_matched_twice = g_two_vars @ [(''D1'', ''sdo:additionalType'', ''obo:IAO_0000100'')]"

definition g_same_var :: "string triple list" where
  "g_same_var =
     g_one_var @
     [(''D1'', ''obo:BFO_0000051'', ''V2''),
      (''V2'', ''rdf:type'', ''obo:STATO_0000258''),
      (''V2'', ''obo:IAO_0000577'', ''V2id''),
      (''V2id'', ''sdo:identifier'', ''phv00169061.v7.p2''),
      (''V2'', ''obo:IAO_0000590'', ''V2name''),
      (''V2name'', ''sdo:value'', ''AGE''),
      (''V2'', ''obo:IAO_0000300'', ''Age of the subject'')]"

definition row_age :: "string row" where
  "row_age = \<lparr>study = ''phs000424.v7.p2'', var_dbgap_id = ''phv00169061.v7.p2'',
              var_name = ''AGE'', var_descr = ''Age of the subject''\<rparr>"

definition row_sex :: "string row" where
  "row_sex = \<lparr>study = ''phs000424.v7.p2'', var_dbgap_id = ''phv00169062.v7.p2'',
              var_name = ''SEX'', var_descr = ''Sex of the subject''\<rparr>"

text \<open>
  \<open>g_no_identifier\<close>: the Dimension has a name and a description but no identifier.
  \<open>g_shared_accession\<close>: two Dataset nodes, each declared a Dataset and each with an identifier
  of its own, that carry the same study accession; the first has the variable of the greater
  accession.
\<close>

definition g_no_identifier :: "string triple list" where
  "g_no_identifier =
     [(''D1'', ''rdf:type'', ''obo:IAO_0000100''),
      (''D1'', ''obo:IAO_0000577'', ''D1id''),
      (''D1id'', ''sdo:identifier'', ''phs000424.v7.p2''),
      (''D1'', ''obo:BFO_0000051'', ''V1''),
      (''V1'', ''rdf:type'', ''obo:STATO_0000258''),
      (''V1'', ''obo:IAO_0000590'', ''V1name''),
      (''V1name'', ''sdo:value'', ''AGE''),
      (''V1'', ''obo:IAO_0000300'', ''Age of the subject'')]"

definition g_shared_accession :: "string triple list" where
  "g_shared_accession =
     [(''D1'', ''rdf:type'', ''obo:IAO_0000100''),
      (''D1'', ''obo:IAO_0000577'', ''D1id''),
      (''D1id'', ''sdo:identifier'', ''phs000424.v7.p2''),
      (''D1'', ''obo:BFO_0000051'', ''V2''),
      (''V2'', ''rdf:type'', ''obo:STATO_0000258''),
      (''V2'', ''obo:IAO_0000577'', ''V2id''),
      (''V2id'', ''sdo:identifier'', ''phv00169062.v7.p2''),
      (''V2'', ''obo:IAO_0000590'', ''V2name''),
      (''V2name'', ''sdo:value'', ''SEX''),
      (''V2'', ''obo:IAO_0000300'', ''Sex of the subject''),
      (''D2'', ''rdf:type'', ''obo:IAO_0000100''),
      (''D2'', ''obo:IAO_0000577'', ''D2id''),
      (''D2id'', ''sdo:identifier'', ''phs000424.v7.p2''),
      (''D2'', ''obo:BFO_0000051'', ''V1''),
      (''V1'', ''rdf:type'', ''obo:STATO_0000258''),
      (''V1'', ''obo:IAO_0000577'', ''V1id''),
      (''V1id'', ''sdo:identifier'', ''phv00169061.v7.p2''),
      (''V1'', ''obo:IAO_0000590'', ''V1name''),
      (''V1name'', ''sdo:value'', ''AGE''),
      (''V1'', ''obo:IAO_0000300'', ''Age of the subject'')]"

text \<open>
  \<open>g_two_datasets\<close>: two Datasets with different study accessions. The one of the greater
  accession comes first, and its two Dimensions come with the greater variable accession
  first.
\<close>

definition g_two_datasets :: "string triple list" where
  "g_two_datasets =
     [(''DB'', ''rdf:type'', ''obo:IAO_0000100''),
      (''DB'', ''obo:IAO_0000577'', ''DBid''),
      (''DBid'', ''sdo:identifier'', ''phs000424.v7.p2''),
      (''DB'', ''obo:BFO_0000051'', ''V2''),
      (''V2'', ''rdf:type'', ''obo:STATO_0000258''),
      (''V2'', ''obo:IAO_0000577'', ''V2id''),
      (''V2id'', ''sdo:identifier'', ''phv00169062.v7.p2''),
      (''V2'', ''obo:IAO_0000590'', ''V2name''),
      (''V2name'', ''sdo:value'', ''SEX''),
      (''V2'', ''obo:IAO_0000300'', ''Sex of the subject''),
      (''DB'', ''obo:BFO_0000051'', ''V1''),
      (''V1'', ''rdf:type'', ''obo:STATO_0000258''),
      (''V1'', ''obo:IAO_0000577'', ''V1id''),
      (''V1id'', ''sdo:identifier'', ''phv00169061.v7.p2''),
      (''V1'', ''obo:IAO_0000590'', ''V1name''),
      (''V1name'', ''sdo:value'', ''AGE''),
      (''V1'', ''obo:IAO_0000300'', ''Age of the subject''),
      (''DA'', ''rdf:type'', ''obo:IAO_0000100''),
      (''DA'', ''obo:IAO_0000577'', ''DAid''),
      (''DAid'', ''sdo:identifier'', ''phs000007.v29.p10''),
      (''DA'', ''obo:BFO_0000051'', ''V3''),
      (''V3'', ''rdf:type'', ''obo:STATO_0000258''),
      (''V3'', ''obo:IAO_0000577'', ''V3id''),
      (''V3id'', ''sdo:identifier'', ''phv00000543.v1.p10''),
      (''V3'', ''obo:IAO_0000590'', ''V3name''),
      (''V3name'', ''sdo:value'', ''BMI''),
      (''V3'', ''obo:IAO_0000300'', ''Body mass index'')]"

definition row_bmi :: "string row" where
  "row_bmi = \<lparr>study = ''phs000007.v29.p10'', var_dbgap_id = ''phv00000543.v1.p10'',
              var_name = ''BMI'', var_descr = ''Body mass index''\<rparr>"

text \<open>The rows that one pass of the last loop appends for a dataset of accession \<open>i\<close>.\<close>

definition dataset_rows :: "'t \<Rightarrow> 't dim_atts list \<Rightarrow> 't row list" where
  "dataset_rows i dwa =
     map (\<lambda>x. \<lparr>study = i, var_dbgap_id = da_id x, var_name = da_name x, var_descr = da_descr x\<rparr>) dwa"

section \<open>Theorems\<close>

text \<open>
  C9. In main, \<^verbatim>\<open>study_ids[0]\<close> is evaluated before the study-count check: with no study at
  all the run ends with IndexError, not through the fatal branch. When at least one study was
  read, the index access is in bounds, execution gets past the check if and only if exactly
  one study was read (and then with the first key as the study id), and otherwise the run
  aborts through the fatal branch.
\<close>

theorem main_study_id_count_check:
  "(dbgap_study_pub_md = [] \<longrightarrow> main_study_id dbgap_study_pub_md = Inl IndexError) \<and>
   (dbgap_study_pub_md \<noteq> [] \<longrightarrow>
      main_study_id dbgap_study_pub_md \<noteq> Inl IndexError \<and>
      ((\<exists>study_id. main_study_id dbgap_study_pub_md = Inr study_id) \<longleftrightarrow>
         length dbgap_study_pub_md = 1) \<and>
      (length dbgap_study_pub_md = 1 \<longrightarrow>
         main_study_id dbgap_study_pub_md = Inr (fst (hd dbgap_study_pub_md))) \<and>
      (length dbgap_study_pub_md \<noteq> 1 \<longrightarrow> main_study_id dbgap_study_pub_md = Inl SysExit))"
proof (cases dbgap_study_pub_md)
  case Nil
  then show ?thesis by (simp add: main_study_id_def)
next
  case (Cons kv rest)
  then show ?thesis by (cases rest) (simp_all add: main_study_id_def)
qed

theorem main_study_id_count_check_witness:
  "main_study_id [(''phs000424.v7'', ())] = Inr ''phs000424.v7'' \<and>
   main_study_id [(''phs000424.v7'', ()), (''phs000001.v1'', ())] = Inl SysExit \<and>
   main_study_id ([] :: (string \<times> unit) list) = Inl IndexError"
  using main_study_id_count_check [of "[(''phs000424.v7'', ())]"]
        main_study_id_count_check [of "[(''phs000424.v7'', ()), (''phs000001.v1'', ())]"]
        main_study_id_count_check [of "[] :: (string \<times> unit) list"]
  by simp

subsection \<open>The store\<close>

lemma DatsObj_next: "DatsObj t as h = (a, h') \<Longrightarrow> a = next_addr h \<and> next_addr h' = Suc (next_addr h)"
  by (auto simp: DatsObj_def)

lemma DatsObj_cells:
  "DatsObj t as h = (a, h') \<Longrightarrow>
     cells h' = (cells h)(next_addr h := \<lparr>dats_type = t, atts = as\<rparr>)"
  by (auto simp: DatsObj_def)

lemma map_of_upd_att: "map_of (upd_att k v kvs) = (map_of kvs)(k \<mapsto> v)"
  by (induction kvs) (auto simp: fun_eq_iff)

lemma get_upd_att_other:
  "k' \<noteq> k \<Longrightarrow> DatsObj_get (ob\<lparr>atts := upd_att k v (atts ob)\<rparr>) k' = DatsObj_get ob k'"
  by (simp add: DatsObj_get_def map_of_upd_att)

lemma get_upd_att_same:
  "DatsObj_get (ob\<lparr>atts := upd_att k v (atts ob)\<rparr>) k = v"
  by (simp add: DatsObj_get_def map_of_upd_att)

lemma list_append_frame:
  assumes "list_append s k v h = Inr h'"
  shows "next_addr h' = next_addr h"
    and "dats_type (cells h' a) = dats_type (cells h a)"
    and "k' \<noteq> k \<Longrightarrow> DatsObj_get (cells h' a) k' = DatsObj_get (cells h a) k'"
    and "a \<noteq> s \<Longrightarrow> cells h' a = cells h a"
  using assms
  by (auto simp: list_append_def DatsObj_set_def get_upd_att_other split: dats_val.splits)

lemma DatsObj_set_frame:
  "next_addr (DatsObj_set s k v h) = next_addr h"
  "dats_type (cells (DatsObj_set s k v h) a) = dats_type (cells h a)"
  "k' \<noteq> k \<Longrightarrow> DatsObj_get (cells (DatsObj_set s k v h) a) k' = DatsObj_get (cells h a) k'"
  "a \<noteq> s \<Longrightarrow> cells (DatsObj_set s k v h) a = cells h a"
  by (simp_all add: DatsObj_set_def get_upd_att_other)

lemma link_back_Cons_Inr:
  assumes "link_back g (s # ss) h = Inr h'"
  obtains cl where "DatsObj_get (cells h s) ''characteristics'' = Lst cl"
    and "link_back g ss
           (DatsObj_set s ''characteristics'' (Lst (cl @ [Obj (next_addr h)])) (alloc_dim g h))
         = Inr h'"
  using assms by (auto simp: DatsObj_def alloc_dim_def split: dats_val.splits)

lemma alloc_dim_simps:
  "next_addr (alloc_dim g h) = Suc (next_addr h)"
  "a \<noteq> next_addr h \<Longrightarrow> cells (alloc_dim g h) a = cells h a"
  by (simp_all add: alloc_dim_def DatsObj_def)

lemma link_back_frame:
  "link_back g ss h = Inr h' \<Longrightarrow>
     next_addr h \<le> next_addr h' \<and>
     (\<forall>a<next_addr h. dats_type (cells h' a) = dats_type (cells h a) \<and>
        (\<forall>k. k \<noteq> ''characteristics'' \<longrightarrow>
           DatsObj_get (cells h' a) k = DatsObj_get (cells h a) k))"
proof (induction ss arbitrary: h)
  case Nil
  then show ?case by simp
next
  case (Cons s ss)
  from Cons.prems obtain cl
    where r: "link_back g ss
           (DatsObj_set s ''characteristics'' (Lst (cl @ [Obj (next_addr h)])) (alloc_dim g h))
         = Inr h'"
    by (rule link_back_Cons_Inr)
  from Cons.IH[OF r]
  show ?case by (auto simp: alloc_dim_simps DatsObj_set_frame)
qed

subsection \<open>make_consent_group\<close>

lemma consent_subjects_acc:
  "consent_subjects ss d l r h =
     (case consent_subjects ss d [] [] h of (d', ls, rs, h') \<Rightarrow> (d', l @ ls, r @ rs, h'))"
proof (induction ss arbitrary: d l r h)
  case Nil
  then show ?case by simp
next
  case (Cons s ss)
  show ?case
  proof (cases "d (Str (SUBJID s))")
    case None
    then show ?thesis
      by (simp add: DatsObj_def)
         (subst Cons.IH, subst (2) Cons.IH, simp split: prod.splits)
  next
    case (Some ds)
    then show ?thesis
      by simp (subst Cons.IH, subst (2) Cons.IH, simp split: prod.splits)
  qed
qed

lemma consent_subjects_Cons_None:
  assumes "d (Str (SUBJID s)) = None"
    and "consent_subjects (s # ss) d [] [] h = (d', ls, rs, h')"
  obtains ls' rs' where
    "consent_subjects ss (d(Str (SUBJID s) \<mapsto> next_addr h)) [] []
       \<lparr>cells = (cells h)(next_addr h := new_subject s), next_addr = Suc (next_addr h)\<rparr> =
       (d', ls', rs', h')"
    "ls = next_addr h # ls'" "rs = Obj (next_addr h) # rs'"
  using assms
  by (simp add: DatsObj_def new_subject_def)
     (subst (asm) consent_subjects_acc, auto split: prod.splits)

lemma consent_subjects_Cons_Some:
  assumes "d (Str (SUBJID s)) = Some ds"
    and "consent_subjects (s # ss) d [] [] h = (d', ls, rs, h')"
  obtains ls' rs' where
    "consent_subjects ss d [] [] h = (d', ls', rs', h')"
    "ls = ds # ls'" "rs = getIdRef ds # rs'"
  using assms
  by simp (subst (asm) consent_subjects_acc, auto split: prod.splits)

lemma consent_subjects_frame:
  "consent_subjects ss d [] [] h = (d', ls, rs, h') \<Longrightarrow>
     length ls = length ss \<and> length rs = length ss \<and>
     next_addr h \<le> next_addr h' \<and>
     (\<forall>a<next_addr h. cells h' a = cells h a) \<and>
     (\<forall>k a. d k = Some a \<longrightarrow> d' k = Some a)"
proof (induction ss arbitrary: d h ls rs)
  case Nil
  then show ?case by simp
next
  case (Cons s ss)
  show ?case
  proof (cases "d (Str (SUBJID s))")
    case None
    from consent_subjects_Cons_None[OF None Cons.prems] obtain ls' rs' where
      r: "consent_subjects ss (d(Str (SUBJID s) \<mapsto> next_addr h)) [] []
       \<lparr>cells = (cells h)(next_addr h := new_subject s), next_addr = Suc (next_addr h)\<rparr> =
       (d', ls', rs', h')" and e: "ls = next_addr h # ls'" "rs = Obj (next_addr h) # rs'"
      by blast
    from Cons.IH[OF r] e None show ?thesis by auto (metis option.distinct(1))
  next
    case (Some ds)
    from consent_subjects_Cons_Some[OF Some Cons.prems] obtain ls' rs' where
      r: "consent_subjects ss d [] [] h = (d', ls', rs', h')"
      and e: "ls = ds # ls'" "rs = getIdRef ds # rs'"
      by blast
    from Cons.IH[OF r] e show ?thesis by auto
  qed
qed


lemma consent_subjects_new:
  "consent_subjects ss d [] [] h = (d', ls, rs, h') \<Longrightarrow> d' k = Some a \<Longrightarrow>
     d k = Some a \<or>
     (next_addr h \<le> a \<and> a < next_addr h' \<and>
      (\<exists>s\<in>set ss. k = Str (SUBJID s) \<and> cells h' a = new_subject s))"
proof (induction ss arbitrary: d h ls rs)
  case Nil
  then show ?case by simp
next
  case (Cons s ss)
  show ?case
  proof (cases "d (Str (SUBJID s))")
    case None
    let ?h1 = "\<lparr>cells = (cells h)(next_addr h := new_subject s), next_addr = Suc (next_addr h)\<rparr>"
    from consent_subjects_Cons_None[OF None Cons.prems(1)] obtain ls' rs' where
      r: "consent_subjects ss (d(Str (SUBJID s) \<mapsto> next_addr h)) [] [] ?h1 = (d', ls', rs', h')"
      by blast
    from consent_subjects_frame[OF r]
    have fr: "Suc (next_addr h) \<le> next_addr h'" "cells h' (next_addr h) = new_subject s"
      by auto
    from Cons.IH[OF r Cons.prems(2)] fr show ?thesis
      by (auto split: if_splits)
  next
    case (Some ds)
    from consent_subjects_Cons_Some[OF Some Cons.prems(1)] obtain ls' rs' where
      r: "consent_subjects ss d [] [] h = (d', ls', rs', h')"
      by blast
    from Cons.IH[OF r Cons.prems(2)] show ?thesis by auto
  qed
qed

lemma consent_subjects_members:
  "consent_subjects ss d [] [] h = (d', ls, rs, h') \<Longrightarrow> k < length ss \<Longrightarrow>
     (if Str (SUBJID (ss ! k)) \<in> dom d \<or> SUBJID (ss ! k) \<in> SUBJID ` set (take k ss)
      then \<exists>ds. d' (Str (SUBJID (ss ! k))) = Some ds \<and> rs ! k = getIdRef ds \<and> ls ! k = ds
      else \<exists>a. d' (Str (SUBJID (ss ! k))) = Some a \<and> rs ! k = Obj a \<and> ls ! k = a \<and>
             next_addr h \<le> a \<and> a < next_addr h' \<and> cells h' a = new_subject (ss ! k))"
proof (induction ss arbitrary: d h ls rs k)
  case Nil
  then show ?case by simp
next
  case (Cons s ss)
  show ?case
  proof (cases "d (Str (SUBJID s))")
    case None
    let ?h1 = "\<lparr>cells = (cells h)(next_addr h := new_subject s), next_addr = Suc (next_addr h)\<rparr>"
    let ?d1 = "d(Str (SUBJID s) \<mapsto> next_addr h)"
    from consent_subjects_Cons_None[OF None Cons.prems(1)] obtain ls' rs' where
      r: "consent_subjects ss ?d1 [] [] ?h1 = (d', ls', rs', h')"
      and e: "ls = next_addr h # ls'" "rs = Obj (next_addr h) # rs'"
      by blast
    from consent_subjects_frame[OF r]
    have fr: "Suc (next_addr h) \<le> next_addr h'" "cells h' (next_addr h) = new_subject s"
      "d' (Str (SUBJID s)) = Some (next_addr h)"
      by auto
    show ?thesis
    proof (cases k)
      case 0
      with None e fr show ?thesis by (auto simp: dom_def)
    next
      case (Suc j)
      with Cons.prems(2) have j: "j < length ss" by simp
      have c: "(Str (SUBJID (ss ! j)) \<in> dom ?d1 \<or> SUBJID (ss ! j) \<in> SUBJID ` set (take j ss)) =
               (Str (SUBJID ((s # ss) ! k)) \<in> dom d \<or>
                SUBJID ((s # ss) ! k) \<in> SUBJID ` set (take k (s # ss)))"
        using Suc by auto
      from Cons.IH[OF r j] show ?thesis
        unfolding c using Suc e by (auto split: if_splits)
    qed
  next
    case (Some ds)
    from consent_subjects_Cons_Some[OF Some Cons.prems(1)] obtain ls' rs' where
      r: "consent_subjects ss d [] [] h = (d', ls', rs', h')"
      and e: "ls = ds # ls'" "rs = getIdRef ds # rs'"
      by blast
    from consent_subjects_frame[OF r] Some
    have fr: "d' (Str (SUBJID s)) = Some ds" by auto
    show ?thesis
    proof (cases k)
      case 0
      with Some e fr show ?thesis by (auto simp: dom_def)
    next
      case (Suc j)
      with Cons.prems(2) have j: "j < length ss" by simp
      have c: "(Str (SUBJID (ss ! j)) \<in> dom d \<or> SUBJID (ss ! j) \<in> SUBJID ` set (take j ss)) =
               (Str (SUBJID ((s # ss) ! k)) \<in> dom d \<or>
                SUBJID ((s # ss) ! k) \<in> SUBJID ` set (take k (s # ss)))"
        using Suc Some by auto
      from Cons.IH[OF r j] show ?thesis
        unfolding c using Suc e by (auto split: if_splits)
    qed
  qed
qed


lemma consent_subjects_alloc:
  "consent_subjects ss d [] [] h = (d', ls, rs, h') \<Longrightarrow>
     next_addr h \<le> x \<Longrightarrow> x < next_addr h' \<Longrightarrow> \<exists>s\<in>set ss. cells h' x = new_subject s"
proof (induction ss arbitrary: d h ls rs)
  case Nil
  then show ?case by simp
next
  case (Cons s ss)
  show ?case
  proof (cases "d (Str (SUBJID s))")
    case None
    let ?h1 = "\<lparr>cells = (cells h)(next_addr h := new_subject s), next_addr = Suc (next_addr h)\<rparr>"
    from consent_subjects_Cons_None[OF None Cons.prems(1)] obtain ls' rs' where
      r: "consent_subjects ss (d(Str (SUBJID s) \<mapsto> next_addr h)) [] [] ?h1 = (d', ls', rs', h')"
      by blast
    show ?thesis
    proof (cases "x = next_addr h")
      case True
      with consent_subjects_frame[OF r] show ?thesis by auto
    next
      case False
      with Cons.prems have "next_addr ?h1 \<le> x" by simp
      from Cons.IH[OF r this Cons.prems(3)] show ?thesis by auto
    qed
  next
    case (Some ds)
    from consent_subjects_Cons_Some[OF Some Cons.prems(1)] obtain ls' rs' where
      r: "consent_subjects ss d [] [] h = (d', ls', rs', h')"
      by blast
    from Cons.IH[OF r Cons.prems(2,3)] show ?thesis by auto
  qed
qed

lemma consent_info_of_frame:
  "consent_info_of group_name h = Inr (ci, h') \<Longrightarrow>
     next_addr h \<le> next_addr h' \<and> ci < next_addr h' \<and>
     (\<forall>x<next_addr h. cells h' x = cells h x) \<and>
     (\<forall>x. next_addr h \<le> x \<and> x < next_addr h' \<longrightarrow>
        dats_type (cells h' x) \<in> {''RelatedIdentifier'', ''ConsentInfo''})"
  by (auto simp: consent_info_of_def DatsObj_def split: if_splits)

lemma make_consent_group_Inr:
  assumes "make_consent_group a group_name group_index subject_l d h = Inr (g, d', h')"
  obtains ls rs h1 ci h2 where
    "consent_subjects subject_l d [] [] h = (d', ls, rs, h1)"
    "consent_info_of group_name h1 = Inr (ci, h2)"
    "g = next_addr h2"
    "if no_circular_links a
     then h' = \<lparr>cells = (cells h2)(g := new_group group_name rs ci), next_addr = Suc g\<rparr>
     else link_back g ls \<lparr>cells = (cells h2)(g := new_group group_name rs ci), next_addr = Suc g\<rparr>
            = Inr h'"
  using assms
  by (auto simp: make_consent_group_def DatsObj_def new_group_def
           split: prod.splits sum.splits if_splits)


lemma make_consent_group_result:
  assumes "make_consent_group a group_name group_index subject_l d h = Inr (g, d', h')"
  obtains ls rs h1 ci h2 where
    "consent_subjects subject_l d [] [] h = (d', ls, rs, h1)"
    "consent_info_of group_name h1 = Inr (ci, h2)"
    "g = next_addr h2"
    "DatsObj_get (cells h' g) ''members'' = Lst rs"
    "DatsObj_get (cells h' g) ''size'' = Num (int (length rs))"
    "\<forall>x<g. dats_type (cells h' x) = dats_type (cells h2 x) \<and>
        (\<forall>k. k \<noteq> ''characteristics'' \<longrightarrow>
           DatsObj_get (cells h' x) k = DatsObj_get (cells h2 x) k)"
    "no_circular_links a \<Longrightarrow>
       h' = \<lparr>cells = (cells h2)(g := new_group group_name rs ci), next_addr = Suc g\<rparr>"
proof -
  from assms obtain ls rs h1 ci h2 where
    cs: "consent_subjects subject_l d [] [] h = (d', ls, rs, h1)"
    and ci: "consent_info_of group_name h1 = Inr (ci, h2)"
    and g: "g = next_addr h2"
    and h': "if no_circular_links a
     then h' = \<lparr>cells = (cells h2)(g := new_group group_name rs ci), next_addr = Suc g\<rparr>
     else link_back g ls \<lparr>cells = (cells h2)(g := new_group group_name rs ci), next_addr = Suc g\<rparr>
            = Inr h'"
    by (rule make_consent_group_Inr)
  let ?h3 = "\<lparr>cells = (cells h2)(g := new_group group_name rs ci), next_addr = Suc g\<rparr>"
  have fr: "\<forall>x<Suc g. dats_type (cells h' x) = dats_type (cells ?h3 x) \<and>
        (\<forall>k. k \<noteq> ''characteristics'' \<longrightarrow>
           DatsObj_get (cells h' x) k = DatsObj_get (cells ?h3 x) k)"
  proof (cases "no_circular_links a")
    case True
    with h' show ?thesis by simp
  next
    case False
    with h' have "link_back g ls ?h3 = Inr h'" by simp
    from link_back_frame[OF this] show ?thesis by simp
  qed
  have m: "DatsObj_get (cells h' g) ''members'' = Lst rs"
    and sz: "DatsObj_get (cells h' g) ''size'' = Num (int (length rs))"
    using fr by (simp_all add: new_group_def DatsObj_get_def)
  have old: "\<forall>x<g. dats_type (cells h' x) = dats_type (cells h2 x) \<and>
        (\<forall>k. k \<noteq> ''characteristics'' \<longrightarrow>
           DatsObj_get (cells h' x) k = DatsObj_get (cells h2 x) k)"
    using fr by auto
  show thesis
    using that[OF cs ci g m sz old] h' by simp
qed

lemma main_all_subjects_result:
  assumes "main_all_subjects a dats_subjects_l h = Inr (g, h')"
  shows "g = next_addr h"
    and "DatsObj_get (cells h' g) ''members'' = Lst (map Obj dats_subjects_l)"
    and "DatsObj_get (cells h' g) ''size'' = Num (int (length dats_subjects_l))"
    and "no_circular_links a \<Longrightarrow>
           next_addr h' = Suc g \<and> dats_type (cells h' g) = ''StudyGroup'' \<and>
           (\<forall>x. x \<noteq> g \<longrightarrow> cells h' x = cells h x)"
proof -
  let ?ob = "\<lparr>dats_type = ''StudyGroup'',
      atts = [(''name'', Str ''all subjects''), (''members'', Lst (map Obj dats_subjects_l)),
              (''size'', Num (int (length dats_subjects_l)))]\<rparr>"
  let ?h1 = "\<lparr>cells = (cells h)(next_addr h := ?ob), next_addr = Suc (next_addr h)\<rparr>"
  from assms have g: "g = next_addr h"
    and h': "if no_circular_links a then h' = ?h1 else link_back g dats_subjects_l ?h1 = Inr h'"
    by (auto simp: main_all_subjects_def DatsObj_def split: if_splits sum.splits)
  have fr: "\<forall>x<Suc g. dats_type (cells h' x) = dats_type (cells ?h1 x) \<and>
        (\<forall>k. k \<noteq> ''characteristics'' \<longrightarrow>
           DatsObj_get (cells h' x) k = DatsObj_get (cells ?h1 x) k)"
  proof (cases "no_circular_links a")
    case True
    with h' show ?thesis by simp
  next
    case False
    with h' have "link_back g dats_subjects_l ?h1 = Inr h'" by simp
    from link_back_frame[OF this] g show ?thesis by simp
  qed
  show "g = next_addr h" by (rule g)
  show "DatsObj_get (cells h' g) ''members'' = Lst (map Obj dats_subjects_l)"
    using fr g by (simp add: DatsObj_get_def)
  show "DatsObj_get (cells h' g) ''size'' = Num (int (length dats_subjects_l))"
    using fr g by (simp add: DatsObj_get_def)
  show "no_circular_links a \<Longrightarrow>
           next_addr h' = Suc g \<and> dats_type (cells h' g) = ''StudyGroup'' \<and>
           (\<forall>x. x \<noteq> g \<longrightarrow> cells h' x = cells h x)"
    using h' g by simp
qed

lemma ex_all_subjects: "\<exists>g h'. main_all_subjects args_linked [0] heap0 = Inr (g, h')"
  by (simp add: main_all_subjects_def args_linked_def args_acyclic_def heap0_def gtex1_def
        DatsObj_def list_append_def DatsObj_get_def DatsObj_set_def getIdRef_def)

lemma ex_consent_group:
  "\<exists>g d' h'. make_consent_group args_linked ''General Research Use (GRU)'' ''1'' rows0 subjects0 heap0
       = Inr (g, d', h')"
  by (simp add: make_consent_group_def consent_info_of_def args_linked_def args_acyclic_def
        heap0_def gtex1_def rows0_def subjects0_def
        DatsObj_def list_append_def DatsObj_get_def DatsObj_set_def getIdRef_def)

text \<open>
  C8. Every StudyGroup the GTEx converter builds has a \<open>size\<close> equal to the length of its
  \<open>members\<close> list: the group of all subjects in main, and each consent group of
  make_consent_group. (The back-links, which are added after the construction, leave both
  properties as they were built.)
\<close>

theorem study_group_size:
  "(main_all_subjects a dats_subjects_l h = Inr (g, h') \<longrightarrow>
      (\<exists>members. DatsObj_get (cells h' g) ''members'' = Lst members \<and>
         DatsObj_get (cells h' g) ''size'' = Num (int (length members)))) \<and>
   (make_consent_group a group_name group_index subject_l d h = Inr (g2, d', h'') \<longrightarrow>
      (\<exists>members. DatsObj_get (cells h'' g2) ''members'' = Lst members \<and>
         DatsObj_get (cells h'' g2) ''size'' = Num (int (length members))))"
proof (intro conjI impI)
  assume "main_all_subjects a dats_subjects_l h = Inr (g, h')"
  from main_all_subjects_result(2,3)[OF this]
  show "\<exists>members. DatsObj_get (cells h' g) ''members'' = Lst members \<and>
         DatsObj_get (cells h' g) ''size'' = Num (int (length members))"
    by simp
next
  assume "make_consent_group a group_name group_index subject_l d h = Inr (g2, d', h'')"
  then obtain rs where "DatsObj_get (cells h'' g2) ''members'' = Lst rs"
    "DatsObj_get (cells h'' g2) ''size'' = Num (int (length rs))"
    by (rule make_consent_group_result)
  then show "\<exists>members. DatsObj_get (cells h'' g2) ''members'' = Lst members \<and>
         DatsObj_get (cells h'' g2) ''size'' = Num (int (length members))"
    by simp
qed

theorem study_group_size_witness:
  "(\<exists>g h'. main_all_subjects args_linked [0] heap0 = Inr (g, h') \<and>
      (\<exists>members. DatsObj_get (cells h' g) ''members'' = Lst members \<and>
         DatsObj_get (cells h' g) ''size'' = Num (int (length members)))) \<and>
   (\<exists>g d' h'. make_consent_group args_linked ''General Research Use (GRU)'' ''1'' rows0 subjects0 heap0
       = Inr (g, d', h') \<and>
      (\<exists>members. DatsObj_get (cells h' g) ''members'' = Lst members \<and>
         DatsObj_get (cells h' g) ''size'' = Num (int (length members))))"
proof -
  from ex_all_subjects obtain g h' where
    1: "main_all_subjects args_linked [0] heap0 = Inr (g, h')" by blast
  from ex_consent_group obtain g2 d' h'' where
    2: "make_consent_group args_linked ''General Research Use (GRU)'' ''1'' rows0 subjects0 heap0
       = Inr (g2, d', h'')" by blast
  from study_group_size[of args_linked "[0]" heap0 g h'
      "''General Research Use (GRU)''" "''1''" rows0 subjects0 g2 d' h''] 1 2
  show ?thesis by blast
qed


text \<open>
  C7. With \<open>no_circular_links\<close> set, group construction adds no back-link: neither the group of
  all subjects in main nor make_consent_group changes any object that existed before (so the
  \<open>characteristics\<close> of every subject are as they were), no Dimension is allocated, and every
  Material that make_consent_group creates keeps the empty \<open>characteristics\<close> list it was
  built with.
\<close>

theorem no_circular_links_no_back_links:
  assumes "no_circular_links a"
  shows "(main_all_subjects a dats_subjects_l h = Inr (g, h') \<longrightarrow>
            (\<forall>x<next_addr h. cells h' x = cells h x) \<and>
            (\<forall>x. next_addr h \<le> x \<and> x < next_addr h' \<longrightarrow>
               dats_type (cells h' x) \<noteq> ''Dimension'')) \<and>
         (make_consent_group a group_name group_index subject_l d h = Inr (g2, d', h'') \<longrightarrow>
            (\<forall>x<next_addr h. cells h'' x = cells h x) \<and>
            (\<forall>x. next_addr h \<le> x \<and> x < next_addr h'' \<longrightarrow>
               dats_type (cells h'' x) \<noteq> ''Dimension'' \<and>
               (dats_type (cells h'' x) = ''Material'' \<longrightarrow>
                  DatsObj_get (cells h'' x) ''characteristics'' = Lst [])))"
proof (intro conjI impI)
  assume r: "main_all_subjects a dats_subjects_l h = Inr (g, h')"
  from main_all_subjects_result(1)[OF r] main_all_subjects_result(4)[OF r assms]
  have g: "g = next_addr h" and n: "next_addr h' = Suc g"
    and t: "dats_type (cells h' g) = ''StudyGroup''"
    and o: "\<forall>x. x \<noteq> g \<longrightarrow> cells h' x = cells h x"
    by auto
  show "\<forall>x<next_addr h. cells h' x = cells h x" using g o by auto
  show "\<forall>x. next_addr h \<le> x \<and> x < next_addr h' \<longrightarrow> dats_type (cells h' x) \<noteq> ''Dimension''"
  proof (intro allI impI)
    fix x assume "next_addr h \<le> x \<and> x < next_addr h'"
    with g n have "x = g" by simp
    with t show "dats_type (cells h' x) \<noteq> ''Dimension''" by simp
  qed
next
  assume r: "make_consent_group a group_name group_index subject_l d h = Inr (g2, d', h'')"
  from r obtain ls rs h1 ci h2 where
    cs: "consent_subjects subject_l d [] [] h = (d', ls, rs, h1)"
    and ci: "consent_info_of group_name h1 = Inr (ci, h2)"
    and g: "g2 = next_addr h2"
    and hh: "if no_circular_links a
     then h'' = \<lparr>cells = (cells h2)(g2 := new_group group_name rs ci), next_addr = Suc g2\<rparr>
     else link_back g2 ls \<lparr>cells = (cells h2)(g2 := new_group group_name rs ci), next_addr = Suc g2\<rparr>
            = Inr h''"
    by (rule make_consent_group_Inr)
  from hh assms
  have h'': "h'' = \<lparr>cells = (cells h2)(g2 := new_group group_name rs ci), next_addr = Suc g2\<rparr>"
    by simp
  from consent_subjects_frame[OF cs] have
    f1: "next_addr h \<le> next_addr h1" "\<forall>x<next_addr h. cells h1 x = cells h x" by auto
  from consent_info_of_frame[OF ci] have
    f2: "next_addr h1 \<le> next_addr h2" "\<forall>x<next_addr h1. cells h2 x = cells h1 x"
      "\<forall>x. next_addr h1 \<le> x \<and> x < next_addr h2 \<longrightarrow>
        dats_type (cells h2 x) \<in> {''RelatedIdentifier'', ''ConsentInfo''}" by auto
  show "\<forall>x<next_addr h. cells h'' x = cells h x"
    using f1 f2 g h'' by auto
  show "\<forall>x. next_addr h \<le> x \<and> x < next_addr h'' \<longrightarrow>
               dats_type (cells h'' x) \<noteq> ''Dimension'' \<and>
               (dats_type (cells h'' x) = ''Material'' \<longrightarrow>
                  DatsObj_get (cells h'' x) ''characteristics'' = Lst [])"
  proof (intro allI impI)
    fix x assume x: "next_addr h \<le> x \<and> x < next_addr h''"
    consider "x < next_addr h1" | "next_addr h1 \<le> x" "x < next_addr h2" | "x = g2"
      using x h'' g by fastforce
    then show "dats_type (cells h'' x) \<noteq> ''Dimension'' \<and>
               (dats_type (cells h'' x) = ''Material'' \<longrightarrow>
                  DatsObj_get (cells h'' x) ''characteristics'' = Lst [])"
    proof cases
      case 1
      with consent_subjects_alloc[OF cs, of x] x obtain s where
        "cells h1 x = new_subject s" by auto
      moreover have "cells h'' x = cells h1 x" using 1 f2 g h'' by auto
      ultimately show ?thesis by (simp add: new_subject_def DatsObj_get_def)
    next
      case 2
      with f2(3) have "dats_type (cells h2 x) \<in> {''RelatedIdentifier'', ''ConsentInfo''}" by simp
      moreover have "cells h'' x = cells h2 x" using 2 g h'' by auto
      ultimately show ?thesis by auto
    next
      case 3
      then show ?thesis using h'' by (simp add: new_group_def)
    qed
  qed
qed

lemma ex_all_subjects_acyclic: "\<exists>g h'. main_all_subjects args_acyclic [0] heap0 = Inr (g, h')"
  by (simp add: main_all_subjects_def args_acyclic_def DatsObj_def)

lemma ex_consent_group_acyclic:
  "\<exists>g d' h'. make_consent_group args_acyclic ''General Research Use (GRU)'' ''1'' rows0 subjects0 heap0
       = Inr (g, d', h')"
  by (simp add: make_consent_group_def consent_info_of_def args_acyclic_def
        DatsObj_def split: prod.splits)

theorem no_circular_links_no_back_links_witness:
  "no_circular_links args_acyclic \<and>
   (\<exists>g h'. main_all_subjects args_acyclic [0] heap0 = Inr (g, h') \<and>
      (\<forall>x<next_addr heap0. cells h' x = cells heap0 x) \<and>
      (\<forall>x. next_addr heap0 \<le> x \<and> x < next_addr h' \<longrightarrow>
         dats_type (cells h' x) \<noteq> ''Dimension'')) \<and>
   (\<exists>g d' h'. make_consent_group args_acyclic ''General Research Use (GRU)'' ''1'' rows0 subjects0 heap0
         = Inr (g, d', h') \<and>
      cells h' 0 = gtex1 \<and>
      (\<forall>x<next_addr heap0. cells h' x = cells heap0 x) \<and>
      (\<forall>x. next_addr heap0 \<le> x \<and> x < next_addr h' \<longrightarrow>
         dats_type (cells h' x) \<noteq> ''Dimension'' \<and>
         (dats_type (cells h' x) = ''Material'' \<longrightarrow>
            DatsObj_get (cells h' x) ''characteristics'' = Lst [])))"
proof -
  have a: "no_circular_links args_acyclic" by (simp add: args_acyclic_def)
  from ex_all_subjects_acyclic obtain g h' where
    1: "main_all_subjects args_acyclic [0] heap0 = Inr (g, h')" by blast
  from ex_consent_group_acyclic obtain g2 d' h'' where
    2: "make_consent_group args_acyclic ''General Research Use (GRU)'' ''1'' rows0 subjects0 heap0
       = Inr (g2, d', h'')" by blast
  have 3: "cells heap0 0 = gtex1" "0 < next_addr heap0" by (simp_all add: heap0_def)
  note t = no_circular_links_no_back_links[OF a, of "[0]" heap0 g h'
      "''General Research Use (GRU)''" "''1''" rows0 subjects0 g2 d' h'']
  from t 1 have f1: "(\<forall>x<next_addr heap0. cells h' x = cells heap0 x) \<and>
      (\<forall>x. next_addr heap0 \<le> x \<and> x < next_addr h' \<longrightarrow>
         dats_type (cells h' x) \<noteq> ''Dimension'')"
    by blast
  from t 2 have f2: "(\<forall>x<next_addr heap0. cells h'' x = cells heap0 x) \<and>
      (\<forall>x. next_addr heap0 \<le> x \<and> x < next_addr h'' \<longrightarrow>
         dats_type (cells h'' x) \<noteq> ''Dimension'' \<and>
         (dats_type (cells h'' x) = ''Material'' \<longrightarrow>
            DatsObj_get (cells h'' x) ''characteristics'' = Lst []))"
    by blast
  from f2 3 have f3: "cells h'' 0 = gtex1" by simp
  from 1 f1 have c1: "\<exists>g h'. main_all_subjects args_acyclic [0] heap0 = Inr (g, h') \<and>
      (\<forall>x<next_addr heap0. cells h' x = cells heap0 x) \<and>
      (\<forall>x. next_addr heap0 \<le> x \<and> x < next_addr h' \<longrightarrow>
         dats_type (cells h' x) \<noteq> ''Dimension'')"
    by blast
  from 2 f2 f3 have c2: "\<exists>g d' h'. make_consent_group args_acyclic ''General Research Use (GRU)'' ''1'' rows0 subjects0 heap0
         = Inr (g, d', h') \<and>
      cells h' 0 = gtex1 \<and>
      (\<forall>x<next_addr heap0. cells h' x = cells heap0 x) \<and>
      (\<forall>x. next_addr heap0 \<le> x \<and> x < next_addr h' \<longrightarrow>
         dats_type (cells h' x) \<noteq> ''Dimension'' \<and>
         (dats_type (cells h' x) = ''Material'' \<longrightarrow>
            DatsObj_get (cells h' x) ''characteristics'' = Lst []))"
    by blast
  from a c1 c2 show ?thesis by blast
qed


lemma new_subject_inj: "new_subject s = new_subject t \<Longrightarrow> SUBJID s = SUBJID t"
  by (simp add: new_subject_def)

lemma nth_in_take: "i < k \<Longrightarrow> k \<le> length xs \<Longrightarrow> xs ! i \<in> set (take k xs)"
  by (metis length_take min.absorb2 nth_mem nth_take)

lemma consent_subjects_full_once:
  assumes cs: "consent_subjects ss d [] [] h = (d', ls, rs, h1)"
    and wf: "\<forall>key x. d key = Some x \<longrightarrow> x < next_addr h"
    and k: "k < length ss" and full: "rs ! k = Obj x"
  shows "x \<notin> ran d \<and> (\<forall>i<k. rs ! i \<noteq> Obj x \<and> rs ! i \<noteq> getIdRef x)"
proof -
  from consent_subjects_members[OF cs k] full
  have nk: "\<not> (Str (SUBJID (ss ! k)) \<in> dom d \<or> SUBJID (ss ! k) \<in> SUBJID ` set (take k ss))"
    and xk: "next_addr h \<le> x" "cells h1 x = new_subject (ss ! k)"
    by (auto simp: getIdRef_def split: if_splits)
  have 1: "x \<notin> ran d" using wf xk(1) by (fastforce simp: ran_def)
  have 2: "rs ! i \<noteq> Obj x \<and> rs ! i \<noteq> getIdRef x" if i: "i < k" for i
  proof -
    from i k have il: "i < length ss" by simp
    from i k have mem: "SUBJID (ss ! i) \<in> SUBJID ` set (take k ss)"
      by (intro imageI nth_in_take) simp_all
    with nk have ne: "SUBJID (ss ! i) \<noteq> SUBJID (ss ! k)" by auto
    have a: "rs ! i \<noteq> Obj x"
    proof
      assume "rs ! i = Obj x"
      with consent_subjects_members[OF cs il]
      have "cells h1 x = new_subject (ss ! i)"
        by (auto simp: getIdRef_def split: if_splits)
      with xk(2) ne show False by (auto dest: new_subject_inj)
    qed
    have b: "rs ! i \<noteq> getIdRef x"
    proof
      assume "rs ! i = getIdRef x"
      with consent_subjects_members[OF cs il]
      have dx: "d' (Str (SUBJID (ss ! i))) = Some x"
        by (auto simp: getIdRef_def split: if_splits)
      from consent_subjects_new[OF cs dx] wf xk(1)
      obtain s where "Str (SUBJID (ss ! i)) = Str (SUBJID s)" "cells h1 x = new_subject s"
        by fastforce
      with xk(2) ne show False by (auto dest: new_subject_inj)
    qed
    from a b show ?thesis by simp
  qed
  from 1 2 show ?thesis by simp
qed

text \<open>
  C1. In make_consent_group, a subject that is already in \<open>dats_subject_d\<close> when its row is
  reached (it was there at the call, and the dictionary keeps every entry it had; or an
  earlier row of the same list put it there) is added to the members of the StudyGroup as the
  result of \<open>getIdRef()\<close> of the object the dictionary holds; only a subject absent from
  the dictionary is added as a full Material object, which is new and carries the name of the
  row. When the dictionary holds allocated objects, a node that occurs in full in the members
  is therefore not in the caller's dictionary and occurs nowhere earlier in the list, neither
  in full nor as a reference: every later occurrence of a node is a reference.
\<close>

theorem make_consent_group_members:
  assumes "make_consent_group a group_name group_index subject_l d h = Inr (g, d', h')"
  shows "\<exists>members.
     DatsObj_get (cells h' g) ''members'' = Lst members \<and>
     length members = length subject_l \<and>
     (\<forall>key ds. d key = Some ds \<longrightarrow> d' key = Some ds) \<and>
     (\<forall>k<length subject_l.
        if Str (SUBJID (subject_l ! k)) \<in> dom d \<or>
           SUBJID (subject_l ! k) \<in> SUBJID ` set (take k subject_l)
        then \<exists>ds. d' (Str (SUBJID (subject_l ! k))) = Some ds \<and> members ! k = getIdRef ds
        else \<exists>subject. d' (Str (SUBJID (subject_l ! k))) = Some subject \<and>
               members ! k = Obj subject \<and> next_addr h \<le> subject \<and>
               dats_type (cells h' subject) = ''Material'' \<and>
               DatsObj_get (cells h' subject) ''name'' = Str (SUBJID (subject_l ! k))) \<and>
     ((\<forall>key x. d key = Some x \<longrightarrow> x < next_addr h) \<longrightarrow>
        (\<forall>k<length members. \<forall>x. members ! k = Obj x \<longrightarrow>
           x \<notin> ran d \<and> (\<forall>i<k. members ! i \<noteq> Obj x \<and> members ! i \<noteq> getIdRef x)))"
proof -
  from assms obtain ls rs h1 ci h2 where
    cs: "consent_subjects subject_l d [] [] h = (d', ls, rs, h1)"
    and ci: "consent_info_of group_name h1 = Inr (ci, h2)"
    and g: "g = next_addr h2"
    and m: "DatsObj_get (cells h' g) ''members'' = Lst rs"
    and old: "\<forall>x<g. dats_type (cells h' x) = dats_type (cells h2 x) \<and>
        (\<forall>k. k \<noteq> ''characteristics'' \<longrightarrow>
           DatsObj_get (cells h' x) k = DatsObj_get (cells h2 x) k)"
    by (rule make_consent_group_result)
  from consent_subjects_frame[OF cs] have len: "length rs = length subject_l"
    and grows: "\<forall>key ds. d key = Some ds \<longrightarrow> d' key = Some ds" by simp_all
  from consent_info_of_frame[OF ci] have
    f2: "next_addr h1 \<le> next_addr h2" "\<forall>x<next_addr h1. cells h2 x = cells h1 x" by auto
  have keep: "dats_type (cells h' x) = ''Material'' \<and>
              DatsObj_get (cells h' x) ''name'' = Str (SUBJID s)"
    if "x < next_addr h1" "cells h1 x = new_subject s" for x s
  proof -
    from that f2 g have "x < g" "cells h2 x = new_subject s" by auto
    with old show ?thesis by (simp add: new_subject_def DatsObj_get_def)
  qed
  have el: "if Str (SUBJID (subject_l ! k)) \<in> dom d \<or>
           SUBJID (subject_l ! k) \<in> SUBJID ` set (take k subject_l)
        then \<exists>ds. d' (Str (SUBJID (subject_l ! k))) = Some ds \<and> rs ! k = getIdRef ds
        else \<exists>subject. d' (Str (SUBJID (subject_l ! k))) = Some subject \<and>
               rs ! k = Obj subject \<and> next_addr h \<le> subject \<and>
               dats_type (cells h' subject) = ''Material'' \<and>
               DatsObj_get (cells h' subject) ''name'' = Str (SUBJID (subject_l ! k))"
    if k: "k < length subject_l" for k
    using consent_subjects_members[OF cs k] keep by (auto split: if_splits)
  have once: "x \<notin> ran d \<and> (\<forall>i<k. rs ! i \<noteq> Obj x \<and> rs ! i \<noteq> getIdRef x)"
    if "\<forall>key x. d key = Some x \<longrightarrow> x < next_addr h" "k < length rs" "rs ! k = Obj x" for k x
    using consent_subjects_full_once[OF cs that(1) _ that(3)] that(2) len by simp
  from m len grows el once show ?thesis by blast
qed


lemma list3_nth: "length xs = 3 \<Longrightarrow> xs = [xs ! 0, xs ! 1, xs ! 2]"
  by (auto simp: numeral_3_eq_3 length_Suc_conv)

lemma eval_consent_group_linked:
  "\<exists>h'. make_consent_group args_linked ''General Research Use (GRU)'' ''1'' rows0 subjects0 heap0
       = Inr (4, subjects0(Str ''GTEX-2'' \<mapsto> 1), h')"
  by (simp add: make_consent_group_def consent_info_of_def args_linked_def args_acyclic_def
        heap0_def gtex1_def rows0_def subjects0_def
        DatsObj_def list_append_def DatsObj_get_def DatsObj_set_def getIdRef_def)

theorem make_consent_group_members_witness:
  "\<exists>g d' h'. make_consent_group args_linked ''General Research Use (GRU)'' ''1'' rows0 subjects0 heap0
       = Inr (g, d', h') \<and>
     DatsObj_get (cells h' g) ''members'' = Lst [getIdRef 0, Obj 1, getIdRef 1]"
proof -
  from eval_consent_group_linked obtain h' where
    e: "make_consent_group args_linked ''General Research Use (GRU)'' ''1'' rows0 subjects0 heap0
       = Inr (4, subjects0(Str ''GTEX-2'' \<mapsto> 1), h')" by blast
  from make_consent_group_members[OF e] obtain members where
    m: "DatsObj_get (cells h' 4) ''members'' = Lst members"
    and len: "length members = length rows0"
    and el: "\<forall>k<length rows0.
        if Str (SUBJID (rows0 ! k)) \<in> dom subjects0 \<or>
           SUBJID (rows0 ! k) \<in> SUBJID ` set (take k rows0)
        then \<exists>ds. (subjects0(Str ''GTEX-2'' \<mapsto> 1)) (Str (SUBJID (rows0 ! k))) = Some ds \<and>
               members ! k = getIdRef ds
        else \<exists>subject. (subjects0(Str ''GTEX-2'' \<mapsto> 1)) (Str (SUBJID (rows0 ! k))) = Some subject \<and>
               members ! k = Obj subject \<and> next_addr heap0 \<le> subject \<and>
               dats_type (cells h' subject) = ''Material'' \<and>
               DatsObj_get (cells h' subject) ''name'' = Str (SUBJID (rows0 ! k))"
    by blast
  have l3: "length members = 3" using len by (simp add: rows0_def)
  from el[rule_format, of 0] have m0: "members ! 0 = getIdRef 0"
    by (simp add: rows0_def subjects0_def)
  from el[rule_format, of 1] have m1: "members ! 1 = Obj 1"
    by (simp add: rows0_def subjects0_def)
  from el[rule_format, of 2] have m2: "members ! 2 = getIdRef 1"
    by (simp add: rows0_def subjects0_def)
  from list3_nth[OF l3] m0 m1 m2 have "members = [getIdRef 0, Obj 1, getIdRef 1]" by simp
  with e m show ?thesis by blast
qed


subsection \<open>The samples of the study\<close>

lemma sorted_samples_d0: "sorted_by_name heap_samples (map snd samples_d0) = Some (Inr [0, 1, 2])"
  by (simp add: sorted_by_name_def heap_samples_def samples_d0_def sample_obj_def name_of_def
        DatsObj_get_def less_eq_char_def less_char_def)

lemma sorted_numbered:
  "sorted_by_name heap_numbered [1, 0] = Some (Inr [0, 1]) \<and>
   sorted_by_name heap_numbered [2, 0] = Some (Inl TypeError)"
  by (simp add: sorted_by_name_def heap_numbered_def name_of_def DatsObj_get_def)

text \<open>
  C10, as stated, fails for a negative bound: with \<^verbatim>\<open>--max_output_samples -1\<close> and three
  samples the slice \<^verbatim>\<open>[0:-1]\<close> keeps the first two, where the first min(N, total) elements
  are none.
\<close>

theorem main_isAbout_negative_counterexample:
  "main_isAbout args_minus_one samples_d0 3 heap_samples =
     Some (Inr (DatsObj_set 3 ''isAbout'' (Lst [Obj 0, Obj 1]) heap_samples)) \<and>
   Lst [Obj 0, Obj 1] \<noteq>
     Lst (map Obj (take (nat (min (- 1) (int (length samples_d0)))) [0, 1, 2]))"
proof (intro conjI)
  show "main_isAbout args_minus_one samples_d0 3 heap_samples =
     Some (Inr (DatsObj_set 3 ''isAbout'' (Lst [Obj 0, Obj 1]) heap_samples))"
    by (simp add: main_isAbout_def sorted_samples_d0 args_minus_one_def args_public_def
          args_acyclic_def slice_to_def)
  show "Lst [Obj 0, Obj 1] \<noteq>
     Lst (map Obj (take (nat (min (- 1) (int (length samples_d0)))) [0, 1, 2]))"
    by (simp add: samples_d0_def)
qed

lemma get_DatsObj_set: "DatsObj_get (cells (DatsObj_set a k v h) a) k = v"
  by (simp add: DatsObj_set_def get_upd_att_same)

lemma take_min_length: "take (min n (length xs)) xs = take n xs"
  by (simp add: min_def)

lemma is_Str_conv: "is_Str v \<longleftrightarrow> (\<exists>x. v = Str x)"
  by (cases v) simp_all

lemma is_Num_conv: "is_Num v \<longleftrightarrow> (\<exists>n. v = Num n)"
  by (cases v) simp_all

lemma sorted_by_name_of_short: "length xs \<le> 1 \<Longrightarrow> sorted_by_name_of h xs xs"
  by (cases xs) (simp_all add: sorted_by_name_of_def)

lemma sorted_by_name_of_Str:
  assumes "list_all (\<lambda>s. is_Str (name_of h s)) xs"
  shows "sorted_by_name_of h xs (sort_key (\<lambda>s. str_of (name_of h s)) xs)"
proof -
  let ?f = "\<lambda>s. str_of (name_of h s)"
  let ?l = "sort_key ?f xs"
  from assms have str: "\<And>s. s \<in> set xs \<Longrightarrow> \<exists>x. name_of h s = Str x"
    by (simp add: list_all_iff is_Str_conv)
  have "sorted_wrt (\<lambda>s t. ?f s \<le> ?f t) ?l"
    using sorted_sort_key[of ?f xs] by (simp add: sorted_map)
  then have 2: "sorted_wrt (\<lambda>s t. name_le (name_of h s) (name_of h t)) ?l"
  proof (rule sorted_wrt_mono_rel[rotated])
    fix s t assume "s \<in> set ?l" "t \<in> set ?l" "?f s \<le> ?f t"
    with str[of s] str[of t] show "name_le (name_of h s) (name_of h t)" by auto
  qed
  have none: "filter (\<lambda>s. name_of h s = n) ?l = filter (\<lambda>s. name_of h s = n) xs"
    if "\<And>x. n \<noteq> Str x" for n
  proof -
    have "name_of h s \<noteq> n" if "s \<in> set xs" for s
      using str[OF that] \<open>\<And>x. n \<noteq> Str x\<close> by auto
    then have "filter (\<lambda>s. name_of h s = n) ?l = []" "filter (\<lambda>s. name_of h s = n) xs = []"
      by (simp_all add: filter_empty_conv)
    then show ?thesis by simp
  qed
  have 3: "filter (\<lambda>s. name_of h s = n) ?l = filter (\<lambda>s. name_of h s = n) xs" for n
  proof (cases n)
    case (Str x)
    have eqv: "(name_of h s = n) = (?f s = x)" if "s \<in> set xs" for s
    proof -
      from str[OF that] obtain y where "name_of h s = Str y" by blast
      with Str show ?thesis by simp
    qed
    have "filter (\<lambda>s. name_of h s = n) ?l = filter (\<lambda>s. ?f s = x) ?l"
      by (rule filter_cong) (simp_all add: eqv)
    also have "\<dots> = filter (\<lambda>s. ?f s = x) xs" by (rule sort_key_stable)
    also have "\<dots> = filter (\<lambda>s. name_of h s = n) xs"
      by (rule filter_cong) (simp_all add: eqv)
    finally show ?thesis .
  qed (simp_all add: none)
  from 2 3 show ?thesis by (simp add: sorted_by_name_of_def)
qed

lemma sorted_by_name_of_Num:
  assumes "list_all (\<lambda>s. is_Num (name_of h s)) xs"
  shows "sorted_by_name_of h xs (sort_key (\<lambda>s. num_of (name_of h s)) xs)"
proof -
  let ?f = "\<lambda>s. num_of (name_of h s)"
  let ?l = "sort_key ?f xs"
  from assms have num: "\<And>s. s \<in> set xs \<Longrightarrow> \<exists>x. name_of h s = Num x"
    by (simp add: list_all_iff is_Num_conv)
  have "sorted_wrt (\<lambda>s t. ?f s \<le> ?f t) ?l"
    using sorted_sort_key[of ?f xs] by (simp add: sorted_map)
  then have 2: "sorted_wrt (\<lambda>s t. name_le (name_of h s) (name_of h t)) ?l"
  proof (rule sorted_wrt_mono_rel[rotated])
    fix s t assume "s \<in> set ?l" "t \<in> set ?l" "?f s \<le> ?f t"
    with num[of s] num[of t] show "name_le (name_of h s) (name_of h t)" by auto
  qed
  have none: "filter (\<lambda>s. name_of h s = n) ?l = filter (\<lambda>s. name_of h s = n) xs"
    if "\<And>x. n \<noteq> Num x" for n
  proof -
    have "name_of h s \<noteq> n" if "s \<in> set xs" for s
      using num[OF that] \<open>\<And>x. n \<noteq> Num x\<close> by auto
    then have "filter (\<lambda>s. name_of h s = n) ?l = []" "filter (\<lambda>s. name_of h s = n) xs = []"
      by (simp_all add: filter_empty_conv)
    then show ?thesis by simp
  qed
  have 3: "filter (\<lambda>s. name_of h s = n) ?l = filter (\<lambda>s. name_of h s = n) xs" for n
  proof (cases n)
    case (Num x)
    have eqv: "(name_of h s = n) = (?f s = x)" if "s \<in> set xs" for s
    proof -
      from num[OF that] obtain y where "name_of h s = Num y" by blast
      with Num show ?thesis by simp
    qed
    have "filter (\<lambda>s. name_of h s = n) ?l = filter (\<lambda>s. ?f s = x) ?l"
      by (rule filter_cong) (simp_all add: eqv)
    also have "\<dots> = filter (\<lambda>s. ?f s = x) xs" by (rule sort_key_stable)
    also have "\<dots> = filter (\<lambda>s. name_of h s = n) xs"
      by (rule filter_cong) (simp_all add: eqv)
    finally show ?thesis .
  qed (simp_all add: none)
  from 2 3 show ?thesis by (simp add: sorted_by_name_of_def)
qed

lemma sorted_by_name_returns:
  "length xs \<le> 1 \<or> list_all (\<lambda>s. is_Str (name_of h s)) xs \<or>
   list_all (\<lambda>s. is_Num (name_of h s)) xs \<Longrightarrow>
     \<exists>l. sorted_by_name h xs = Some (Inr l)"
  by (auto simp: sorted_by_name_def)

lemma sorted_by_name_Inr:
  assumes "sorted_by_name h xs = Some (Inr l)"
  shows "sorted_by_name_of h xs l"
  using assms
  by (auto simp: sorted_by_name_def sorted_by_name_of_short sorted_by_name_of_Str
        sorted_by_name_of_Num split: if_splits)

text \<open>
  C10, amended. Whenever the names of the samples are all strings or all integers (or there
  is at most one sample) the run gets past the sort. The list then set as \<open>isAbout\<close> on the
  dbGaP study Dataset is taken from the sample list sorted ascending by name (a stable sort
  of the values of \<open>dats_samples_d\<close>): when \<^verbatim>\<open>--max_output_samples N\<close> is supplied with
  \<open>0 \<le> N\<close> it is exactly the first min(N, total) elements, and when the option is absent it
  is the whole sorted list.
\<close>

theorem main_isAbout_limit:
  "(length dats_samples_d \<le> 1 \<or>
    list_all (\<lambda>s. is_Str (name_of h s)) (map snd dats_samples_d) \<or>
    list_all (\<lambda>s. is_Num (name_of h s)) (map snd dats_samples_d) \<longrightarrow>
      (\<exists>h'. main_isAbout a dats_samples_d dbgap_study_dataset h = Some (Inr h'))) \<and>
   (main_isAbout a dats_samples_d dbgap_study_dataset h = Some (Inr h') \<longrightarrow>
      (\<exists>dats_samples_l.
         sorted_by_name_of h (map snd dats_samples_d) dats_samples_l \<and>
         (case max_output_samples a of
            None \<Rightarrow>
              DatsObj_get (cells h' dbgap_study_dataset) ''isAbout'' =
                Lst (map Obj dats_samples_l)
          | Some n \<Rightarrow>
              0 \<le> n \<longrightarrow>
              DatsObj_get (cells h' dbgap_study_dataset) ''isAbout'' =
                Lst (map Obj (take (min (nat n) (length dats_samples_l)) dats_samples_l)))))"
proof (intro conjI impI)
  assume "length dats_samples_d \<le> 1 \<or>
    list_all (\<lambda>s. is_Str (name_of h s)) (map snd dats_samples_d) \<or>
    list_all (\<lambda>s. is_Num (name_of h s)) (map snd dats_samples_d)"
  with sorted_by_name_returns[of "map snd dats_samples_d" h]
  obtain l where "sorted_by_name h (map snd dats_samples_d) = Some (Inr l)" by auto
  then show "\<exists>h'. main_isAbout a dats_samples_d dbgap_study_dataset h = Some (Inr h')"
    by (simp add: main_isAbout_def)
next
  assume r: "main_isAbout a dats_samples_d dbgap_study_dataset h = Some (Inr h')"
  then obtain l where s: "sorted_by_name h (map snd dats_samples_d) = Some (Inr l)"
    by (auto simp: main_isAbout_def split: option.splits sum.splits)
  from r s have h': "h' = DatsObj_set dbgap_study_dataset ''isAbout''
      (Lst (map Obj (case max_output_samples a of None \<Rightarrow> l | Some n \<Rightarrow> slice_to l n))) h"
    by (simp add: main_isAbout_def)
  have 4: "case max_output_samples a of
        None \<Rightarrow>
          DatsObj_get (cells h' dbgap_study_dataset) ''isAbout'' = Lst (map Obj l)
      | Some n \<Rightarrow>
          0 \<le> n \<longrightarrow>
          DatsObj_get (cells h' dbgap_study_dataset) ''isAbout'' =
            Lst (map Obj (take (min (nat n) (length l)) l))"
    unfolding h' get_DatsObj_set take_min_length
    by (simp add: slice_to_def split: option.splits)
  from sorted_by_name_Inr[OF s] 4
  show "\<exists>dats_samples_l.
         sorted_by_name_of h (map snd dats_samples_d) dats_samples_l \<and>
         (case max_output_samples a of
            None \<Rightarrow>
              DatsObj_get (cells h' dbgap_study_dataset) ''isAbout'' =
                Lst (map Obj dats_samples_l)
          | Some n \<Rightarrow>
              0 \<le> n \<longrightarrow>
              DatsObj_get (cells h' dbgap_study_dataset) ''isAbout'' =
                Lst (map Obj (take (min (nat n) (length dats_samples_l)) dats_samples_l)))"
    by blast
qed

lemma eval_isAbout_two:
  "main_isAbout args_two samples_d0 3 heap_samples =
     Some (Inr (DatsObj_set 3 ''isAbout'' (Lst [Obj 0, Obj 1]) heap_samples))"
  by (simp add: main_isAbout_def sorted_samples_d0 args_two_def args_public_def args_acyclic_def
        slice_to_def)

lemma numbered_all_Num:
  "list_all (\<lambda>s. is_Num (name_of heap_numbered s)) (map snd samples_numbered)"
  by (simp add: samples_numbered_def heap_numbered_def name_of_def DatsObj_get_def)

theorem main_isAbout_limit_witness:
  "main_isAbout args_two samples_d0 3 heap_samples =
     Some (Inr (DatsObj_set 3 ''isAbout'' (Lst [Obj 0, Obj 1]) heap_samples)) \<and>
   (\<exists>dats_samples_l.
      sorted_by_name_of heap_samples (map snd samples_d0) dats_samples_l \<and>
      DatsObj_get (cells (DatsObj_set 3 ''isAbout'' (Lst [Obj 0, Obj 1]) heap_samples) 3) ''isAbout'' =
        Lst (map Obj (take (min (nat 2) (length dats_samples_l)) dats_samples_l))) \<and>
   list_all (\<lambda>s. is_Num (name_of heap_numbered s)) (map snd samples_numbered) \<and>
   (\<exists>h'. main_isAbout args_two samples_numbered 3 heap_numbered = Some (Inr h'))"
proof -
  have m: "max_output_samples args_two = Some 2"
    by (simp add: args_two_def args_public_def args_acyclic_def)
  note t1 = main_isAbout_limit[of samples_d0 heap_samples args_two 3
      "DatsObj_set 3 ''isAbout'' (Lst [Obj 0, Obj 1]) heap_samples"]
  from t1 eval_isAbout_two obtain l where
    "sorted_by_name_of heap_samples (map snd samples_d0) l"
    "case max_output_samples args_two of
        None \<Rightarrow>
          DatsObj_get (cells (DatsObj_set 3 ''isAbout'' (Lst [Obj 0, Obj 1]) heap_samples) 3) ''isAbout''
            = Lst (map Obj l)
      | Some n \<Rightarrow>
          0 \<le> n \<longrightarrow>
          DatsObj_get (cells (DatsObj_set 3 ''isAbout'' (Lst [Obj 0, Obj 1]) heap_samples) 3) ''isAbout'' =
            Lst (map Obj (take (min (nat n) (length l)) l))"
    by blast
  with m have 1: "\<exists>dats_samples_l.
      sorted_by_name_of heap_samples (map snd samples_d0) dats_samples_l \<and>
      DatsObj_get (cells (DatsObj_set 3 ''isAbout'' (Lst [Obj 0, Obj 1]) heap_samples) 3) ''isAbout'' =
        Lst (map Obj (take (min (nat 2) (length dats_samples_l)) dats_samples_l))"
    by auto
  from main_isAbout_limit[of samples_numbered heap_numbered args_two 3] numbered_all_Num
  have 2: "\<exists>h'. main_isAbout args_two samples_numbered 3 heap_numbered = Some (Inr h')"
    by blast
  from eval_isAbout_two 1 numbered_all_Num 2 show ?thesis by blast
qed

subsection \<open>Duplicate identifiers\<close>

lemma study_var_dims_duplicate:
  "(\<exists>v\<in>set vars. dbgap_vars (dbgap_id v) \<noteq> None) \<or> \<not> distinct (map dbgap_id vars) \<Longrightarrow>
     \<exists>e. study_var_dims vars st dbgap_vars h = Inl e"
proof (induction vars arbitrary: dbgap_vars h)
  case Nil
  then show ?case by simp
next
  case (Cons var vars)
  let ?dim = "Suc (Suc (next_addr h))"
  show ?case
  proof (cases "dbgap_vars (dbgap_id var)")
    case (Some x)
    then show ?thesis by (simp add: DatsObj_def split: sum.splits)
  next
    case None
    with Cons.prems have
      "(\<exists>v\<in>set vars. (dbgap_vars(dbgap_id var \<mapsto> ?dim)) (dbgap_id v) \<noteq> None) \<or>
       \<not> distinct (map dbgap_id vars)"
      by auto
    then have ih: "\<exists>e. study_var_dims vars st (dbgap_vars(dbgap_id var \<mapsto> ?dim)) h' = Inl e" for h'
      by (rule Cons.IH)
    show ?thesis
      using None ih by (simp add: DatsObj_def split: sum.splits)
  qed
qed

lemma study_var_dims_duplicate_fatal:
  "(\<exists>v\<in>set vars. dbgap_vars (dbgap_id v) \<noteq> None) \<or> \<not> distinct (map dbgap_id vars) \<Longrightarrow>
   st < next_addr h \<Longrightarrow> \<exists>xs. DatsObj_get (cells h st) ''dimensions'' = Lst xs \<Longrightarrow>
     study_var_dims vars st dbgap_vars h = Inl SysExit"
proof (induction vars arbitrary: dbgap_vars h)
  case Nil
  then show ?case by simp
next
  case (Cons var vars)
  let ?dim = "Suc (Suc (next_addr h))"
  let ?h3 = "snd (DatsObj ''Dimension''
              [(''identifier'', Obj (next_addr h)), (''name'', Obj (Suc (next_addr h))),
               (''description'', Str (dbgap_description var))]
             (snd (DatsObj ''Annotation'' [(''value'', Str (dbgap_var_name var))]
             (snd (DatsObj ''Identifier''
              [(''identifier'', Str (dbgap_id var)), (''identifierSource'', Str ''dbGaP'')] h)))))"
  from Cons.prems(3) obtain xs where xs: "DatsObj_get (cells h st) ''dimensions'' = Lst xs"
    by blast
  have c3: "cells ?h3 st = cells h st" "next_addr ?h3 = Suc (Suc (Suc (next_addr h)))"
    using Cons.prems(2) by (simp_all add: DatsObj_def)
  let ?h4 = "DatsObj_set st ''dimensions'' (Lst (xs @ [Obj ?dim])) ?h3"
  have ap: "list_append st ''dimensions'' (Obj ?dim) ?h3 = Inr ?h4"
    using xs c3 by (simp add: list_append_def)
  have unf: "study_var_dims (var # vars) st dbgap_vars h =
       (if dbgap_vars (dbgap_id var) \<noteq> None then Inl SysExit
        else study_var_dims vars st (dbgap_vars(dbgap_id var \<mapsto> ?dim)) ?h4)"
    using ap by (simp add: DatsObj_def)
  show ?case
  proof (cases "dbgap_vars (dbgap_id var)")
    case (Some x)
    then show ?thesis unfolding unf by simp
  next
    case None
    with Cons.prems(1) have p:
      "(\<exists>v\<in>set vars. (dbgap_vars(dbgap_id var \<mapsto> ?dim)) (dbgap_id v) \<noteq> None) \<or>
       \<not> distinct (map dbgap_id vars)"
      by auto
    have n4: "st < next_addr ?h4" using c3 Cons.prems(2) by (simp add: DatsObj_set_def)
    have d4: "\<exists>ys. DatsObj_get (cells ?h4 st) ''dimensions'' = Lst ys"
      by (simp add: get_DatsObj_set)
    have "study_var_dims vars st (dbgap_vars(dbgap_id var \<mapsto> ?dim)) ?h4 = Inl SysExit"
      using p n4 d4 by (rule Cons.IH)
    with None show ?thesis unfolding unf by simp
  qed
qed

lemma index_subjects_duplicate:
  "(\<exists>s\<in>set ss. subjects_d (name_of h s) \<noteq> None) \<or> \<not> distinct (map (name_of h) ss) \<Longrightarrow>
     (\<exists>e. index_subjects ss h subjects_d = Inl e) \<and>
     (list_all (\<lambda>s. is_Str (name_of h s)) ss \<longrightarrow> index_subjects ss h subjects_d = Inl SysExit)"
proof (induction ss arbitrary: subjects_d)
  case Nil
  then show ?case by simp
next
  case (Cons s ss)
  show ?case
  proof (cases "subjects_d (name_of h s)")
    case (Some x)
    then show ?thesis
      by (cases "name_of h s") (auto simp: name_of_def)
  next
    case None
    with Cons.prems have
      "(\<exists>t\<in>set ss. (subjects_d(name_of h s \<mapsto> s)) (name_of h t) \<noteq> None) \<or>
       \<not> distinct (map (name_of h) ss)"
      by auto
    then have ih: "(\<exists>e. index_subjects ss h (subjects_d(name_of h s \<mapsto> s)) = Inl e) \<and>
       (list_all (\<lambda>s. is_Str (name_of h s)) ss \<longrightarrow>
          index_subjects ss h (subjects_d(name_of h s \<mapsto> s)) = Inl SysExit)"
      by (rule Cons.IH)
    have unf: "(\<exists>xs. name_of h s = Lst xs) \<or>
       index_subjects (s # ss) h subjects_d = index_subjects ss h (subjects_d(name_of h s \<mapsto> s))"
      using None by (cases "name_of h s") (simp_all add: name_of_def)
    show ?thesis
    proof (cases "name_of h s")
      case (Lst xs)
      then show ?thesis by (simp add: name_of_def)
    next
      case PyNone
      with unf ih show ?thesis by simp
    next
      case (Str x)
      with unf ih show ?thesis by simp
    next
      case (Num x)
      with unf ih show ?thesis by simp
    next
      case (Obj x)
      with unf ih show ?thesis by simp
    next
      case (IdRef x)
      with unf ih show ?thesis by simp
    qed
  qed
qed


text \<open>
  C2. add_study_vars aborts when two dbGaP variables share the same id (through the fatal
  branch whenever the study has its list of dimensions). main calls add_restricted_data only
  when a path to protected metadata was given; on every such call add_restricted_data aborts
  when two DATS subjects share the same name (through the fatal branch when the names are
  strings), and the run aborts with it.
\<close>

theorem duplicate_identifier_aborts:
  "(\<not> distinct (map dbgap_id (all_vars study_md)) \<longrightarrow>
      (\<exists>e. add_study_vars st study_md h = Inl e) \<and>
      (st < next_addr h \<and> (\<exists>xs. DatsObj_get (cells h st) ''dimensions'' = Lst xs) \<longrightarrow>
         add_study_vars st study_md h = Inl SysExit)) \<and>
   (dbgap_protected_metadata_path a \<noteq> None \<and> \<not> distinct (map (name_of h2) subjects_l) \<longrightarrow>
      (\<exists>e. add_restricted_data rd upd a md subjects_l st2 study_id h2 = Inl e) \<and>
      (\<exists>e. main_restricted_data rd upd a md subjects_l st2 study_id h2 = Inl e) \<and>
      (list_all (\<lambda>s. is_Str (name_of h2 s)) subjects_l \<longrightarrow>
         add_restricted_data rd upd a md subjects_l st2 study_id h2 = Inl SysExit))"
proof (intro conjI impI)
  assume d: "\<not> distinct (map dbgap_id (all_vars study_md))"
  from study_var_dims_duplicate[of "all_vars study_md" Map.empty st h] d
  show "\<exists>e. add_study_vars st study_md h = Inl e"
    by (simp add: add_study_vars_def)
  assume "st < next_addr h \<and> (\<exists>xs. DatsObj_get (cells h st) ''dimensions'' = Lst xs)"
  with study_var_dims_duplicate_fatal[of "all_vars study_md" Map.empty st h] d
  show "add_study_vars st study_md h = Inl SysExit"
    by (simp add: add_study_vars_def)
next
  assume p: "dbgap_protected_metadata_path a \<noteq> None \<and> \<not> distinct (map (name_of h2) subjects_l)"
  then obtain restricted_mp where mp: "dbgap_protected_metadata_path a = Some restricted_mp"
    by auto
  from p index_subjects_duplicate[of subjects_l Map.empty h2]
  have ix: "\<exists>e. index_subjects subjects_l h2 Map.empty = Inl e"
    and ix2: "list_all (\<lambda>s. is_Str (name_of h2 s)) subjects_l \<longrightarrow>
                index_subjects subjects_l h2 Map.empty = Inl SysExit"
    by simp_all
  from ix mp show ab: "\<exists>e. add_restricted_data rd upd a md subjects_l st2 study_id h2 = Inl e"
    by (auto simp: add_restricted_data_def)
  from ab mp show "\<exists>e. main_restricted_data rd upd a md subjects_l st2 study_id h2 = Inl e"
    by (simp add: main_restricted_data_def)
  assume "list_all (\<lambda>s. is_Str (name_of h2 s)) subjects_l"
  with ix2 mp show "add_restricted_data rd upd a md subjects_l st2 study_id h2 = Inl SysExit"
    by (simp add: add_restricted_data_def)
qed

theorem duplicate_identifier_aborts_witness:
  "\<not> distinct (map dbgap_id (all_vars md_duplicate)) \<and>
   add_study_vars 0 md_duplicate heap_study = Inl SysExit \<and>
   dbgap_protected_metadata_path args_acyclic \<noteq> None \<and>
   \<not> distinct (map (name_of heap_twins) [0, 1]) \<and>
   add_restricted_data read_nothing update_nothing args_acyclic Map.empty [0, 1] 2
     ''phs000424.v7'' heap_twins = Inl SysExit \<and>
   (\<exists>e. main_restricted_data read_nothing update_nothing args_acyclic Map.empty [0, 1] 2
     ''phs000424.v7'' heap_twins = Inl e)"
proof -
  have 1: "\<not> distinct (map dbgap_id (all_vars md_duplicate))"
    by (simp add: all_vars_def md_duplicate_def)
  have 2: "0 < next_addr heap_study \<and>
           (\<exists>xs. DatsObj_get (cells heap_study 0) ''dimensions'' = Lst xs)"
    by (simp add: heap_study_def DatsObj_get_def)
  have 3: "dbgap_protected_metadata_path args_acyclic \<noteq> None" by (simp add: args_acyclic_def)
  have 4: "\<not> distinct (map (name_of heap_twins) [0, 1])"
    by (simp add: name_of_def heap_twins_def)
  have 5: "list_all (\<lambda>s. is_Str (name_of heap_twins s)) [0, 1]"
    by (simp add: name_of_def heap_twins_def gtex1_def DatsObj_get_def)
  from duplicate_identifier_aborts[of md_duplicate 0 heap_study args_acyclic heap_twins "[0, 1]"
         read_nothing update_nothing Map.empty 2 "''phs000424.v7''"] 1 2 3 4 5
  show ?thesis by blast
qed

subsection \<open>list_dataset_variables\<close>

lemma variables_loop_Cons_Inr:
  assumes "variables_loop ru g descrs ids names ((d, i) # rest) = Inr rows"
  obtains dwa rows' where
    "dims_with_atts descrs ids names (dataset_dims ru g d) = Inr dwa"
    "variables_loop ru g descrs ids names rest = Inr rows'"
    "rows = dataset_rows i (sort_key da_id dwa) @ rows'"
  using assms by (auto simp: dataset_rows_def split: sum.splits)

lemma dataset_rows_study: "r \<in> set (dataset_rows i dwa) \<Longrightarrow> study r = i"
  by (auto simp: dataset_rows_def)

lemma dataset_rows_sorted_study: "sorted (map study (dataset_rows i dwa))"
  by (induction dwa) (auto simp: dataset_rows_def)

lemma dataset_rows_sorted:
  "sorted (map da_id dwa) \<Longrightarrow> ordered_by_study_then_var (dataset_rows i dwa)"
  unfolding ordered_by_study_then_var_def dataset_rows_def sorted_map sorted_wrt_map
  by (erule sorted_wrt_mono_rel[rotated]) simp

lemma variables_loop_study:
  "variables_loop ru g descrs ids names dss = Inr rows \<Longrightarrow> r \<in> set rows \<Longrightarrow>
     study r \<in> snd ` set dss"
proof (induction dss arbitrary: rows)
  case Nil
  then show ?case by simp
next
  case (Cons di rest)
  obtain d i where di: "di = (d, i)" by (cases di)
  from Cons.prems(1) obtain dwa rows' where
    r': "variables_loop ru g descrs ids names rest = Inr rows'"
    and rows: "rows = dataset_rows i (sort_key da_id dwa) @ rows'"
    unfolding di by (rule variables_loop_Cons_Inr)
  from Cons.prems(2) rows consider "r \<in> set (dataset_rows i (sort_key da_id dwa))" | "r \<in> set rows'"
    by auto
  then show ?case
  proof cases
    case 1
    then show ?thesis using di by (simp add: dataset_rows_study)
  next
    case 2
    from Cons.IH[OF r' 2] show ?thesis by auto
  qed
qed

lemma variables_loop_sorted_study:
  "variables_loop ru g descrs ids names dss = Inr rows \<Longrightarrow> sorted (map snd dss) \<Longrightarrow>
     sorted (map study rows)"
proof (induction dss arbitrary: rows)
  case Nil
  then show ?case by simp
next
  case (Cons di rest)
  obtain d i where di: "di = (d, i)" by (cases di)
  from Cons.prems(1) obtain dwa rows' where
    r': "variables_loop ru g descrs ids names rest = Inr rows'"
    and rows: "rows = dataset_rows i (sort_key da_id dwa) @ rows'"
    unfolding di by (rule variables_loop_Cons_Inr)
  from Cons.prems(2) di have s: "sorted (map snd rest)" and le: "\<forall>j\<in>snd ` set rest. i \<le> j"
    by auto
  have 1: "sorted (map study (dataset_rows i (sort_key da_id dwa)))"
    by (rule dataset_rows_sorted_study)
  have 2: "sorted (map study rows')" using Cons.IH[OF r' s] .
  have 3: "\<forall>x\<in>set (dataset_rows i (sort_key da_id dwa)). \<forall>y\<in>set rows'. study x \<le> study y"
  proof (intro ballI)
    fix x y assume "x \<in> set (dataset_rows i (sort_key da_id dwa))" "y \<in> set rows'"
    with variables_loop_study[OF r', of y] dataset_rows_study[of x i] le
    show "study x \<le> study y" by auto
  qed
  from 1 2 3 show ?case unfolding rows by (simp add: sorted_append)
qed

lemma variables_loop_ordered:
  "variables_loop ru g descrs ids names dss = Inr rows \<Longrightarrow> sorted (map snd dss) \<Longrightarrow>
   distinct (map snd dss) \<Longrightarrow> ordered_by_study_then_var rows"
proof (induction dss arbitrary: rows)
  case Nil
  then show ?case by (simp add: ordered_by_study_then_var_def)
next
  case (Cons di rest)
  obtain d i where di: "di = (d, i)" by (cases di)
  from Cons.prems(1) obtain dwa rows' where
    r': "variables_loop ru g descrs ids names rest = Inr rows'"
    and rows: "rows = dataset_rows i (sort_key da_id dwa) @ rows'"
    unfolding di by (rule variables_loop_Cons_Inr)
  from Cons.prems(2,3) di have s: "sorted (map snd rest)" "distinct (map snd rest)"
    and lt: "\<forall>j\<in>snd ` set rest. i < j"
    by (auto simp: less_le)
  have 1: "ordered_by_study_then_var (dataset_rows i (sort_key da_id dwa))"
    by (rule dataset_rows_sorted) (rule sorted_sort_key)
  have 2: "ordered_by_study_then_var rows'" using Cons.IH[OF r' s] .
  have 3: "\<forall>x\<in>set (dataset_rows i (sort_key da_id dwa)). \<forall>y\<in>set rows'. study x < study y"
  proof (intro ballI)
    fix x y assume "x \<in> set (dataset_rows i (sort_key da_id dwa))" "y \<in> set rows'"
    with variables_loop_study[OF r', of y] dataset_rows_study[of x i] lt
    show "study x < study y" by auto
  qed
  from 1 2 3 show ?case
    unfolding rows ordered_by_study_then_var_def by (auto simp: sorted_wrt_append)
qed

lemma list_dataset_variables_loop:
  "list_dataset_variables ru g dataset_id = Inr rows \<Longrightarrow>
     \<exists>descrs ids names.
       variables_loop ru g descrs ids names (selected_datasets ru g dataset_id) = Inr rows"
  by (auto simp: list_dataset_variables_def Let_def split: prod.splits)

lemma selected_datasets_sorted: "sorted (map snd (selected_datasets ru g dataset_id))"
  by (simp add: selected_datasets_def split: prod.splits)

text \<open>
  C4, as stated, fails when two Dataset nodes carry the same study accession: each is
  declared a Dataset and has an identifier of its own, the rows of the first are followed by
  the rows of the second, and these rows of one study accession are not in the order of the
  variable accessions.
\<close>

theorem list_dataset_variables_order_counterexample:
  "distinct g_shared_accession \<and>
   all_datasets ru0 g_shared_accession = [''D1'', ''D2''] \<and>
   list_dataset_variables ru0 g_shared_accession None = Inr [row_sex, row_age] \<and>
   \<not> ordered_by_study_then_var [row_sex, row_age]"
  by code_simp

text \<open>
  The same happens when the first step matches one Dataset node twice, through a second
  predicate that points to the Dataset class: the node is then listed twice among the
  selected datasets.
\<close>

lemma list_dataset_variables_matched_twice:
  "selected_datasets ru0 g_matched_twice None =
     [(''D1'', ''phs000424.v7.p2''), (''D1'', ''phs000424.v7.p2'')] \<and>
   list_dataset_variables ru0 g_matched_twice None = Inr [row_age, row_sex, row_age, row_sex] \<and>
   \<not> ordered_by_study_then_var [row_age, row_sex, row_age, row_sex]"
  by code_simp

text \<open>
  C4, amended. For every input graph the rows that list_dataset_variables returns are sorted
  in non-decreasing order by the study accession. The list of the selected datasets
  (\<open>selected_datasets\<close>, the sorted \<^verbatim>\<open>datasets_with_ids\<close> of the script) has one entry, a node
  with its accession, for every match of the first step that has an identifier and passes
  the filter; whenever no study accession occurs twice in that list, the rows are sorted by
  the study accession and then by the variable accession.
\<close>

theorem list_dataset_variables_order:
  assumes "list_dataset_variables ru g dataset_id = Inr rows"
  shows "sorted (map study rows) \<and>
         (distinct (map snd (selected_datasets ru g dataset_id)) \<longrightarrow>
            ordered_by_study_then_var rows)"
proof -
  from list_dataset_variables_loop[OF assms] obtain descrs ids names where
    l: "variables_loop ru g descrs ids names (selected_datasets ru g dataset_id) = Inr rows"
    by blast
  from variables_loop_sorted_study[OF l selected_datasets_sorted]
       variables_loop_ordered[OF l selected_datasets_sorted]
  show ?thesis by blast
qed

lemma eval_two_datasets:
  "list_dataset_variables ru0 g_two_datasets None = Inr [row_bmi, row_age, row_sex]"
  by code_simp

lemma selected_two_datasets:
  "selected_datasets ru0 g_two_datasets None =
     [(''DA'', ''phs000007.v29.p10''), (''DB'', ''phs000424.v7.p2'')]"
  by code_simp

theorem list_dataset_variables_order_witness:
  "list_dataset_variables ru0 g_two_datasets None = Inr [row_bmi, row_age, row_sex] \<and>
   all_datasets ru0 g_two_datasets = [''DB'', ''DA''] \<and>
   dataset_dims ru0 g_two_datasets ''DB'' = [''V2'', ''V1''] \<and>
   distinct (map snd (selected_datasets ru0 g_two_datasets None)) \<and>
   sorted (map study [row_bmi, row_age, row_sex]) \<and>
   ordered_by_study_then_var [row_bmi, row_age, row_sex]"
proof -
  have 1: "all_datasets ru0 g_two_datasets = [''DB'', ''DA'']"
    and 2: "dataset_dims ru0 g_two_datasets ''DB'' = [''V2'', ''V1'']"
    by code_simp+
  have 3: "distinct (map snd (selected_datasets ru0 g_two_datasets None))"
    by (simp add: selected_two_datasets)
  from list_dataset_variables_order[OF eval_two_datasets] eval_two_datasets 1 2 3
  show ?thesis by blast
qed

text \<open>
  C3. A Dimension that has an identifier but no description makes list_dataset_variables
  raise KeyError, where the claim has it return no row for that Dimension; a Dimension
  without an identifier is left out, as the claim says.
\<close>

theorem list_dataset_variables_missing_description:
  "list_dataset_variables ru0 g_no_description None = Inl KeyError \<and>
   list_dataset_variables ru0 g_no_identifier None = Inr []"
  by code_simp

text \<open>
  C5. Two Dimension nodes of one Dataset with the same accession, name and description give
  the same row twice: the rows are not deduplicated.
\<close>

theorem list_dataset_variables_duplicate_rows:
  "distinct g_same_var \<and> list_dataset_variables ru0 g_same_var None = Inr [row_age, row_age]"
  by code_simp

text \<open>
  What the first step does select: every selected node is the subject of some triple whose
  object is the Dataset term, and with a filter every row carries the filter's accession.
\<close>

lemma dataset_ids_loop_subset:
  "dataset_ids_loop ru g ds m acc = (m', datasets) \<Longrightarrow> set datasets \<subseteq> set acc \<union> set ds"
proof (induction ds arbitrary: m acc)
  case Nil
  then show ?case by simp
next
  case (Cons d ds)
  let ?m = "fold (\<lambda>o2 m. m(d \<mapsto> o2)) (two_hop g d (CENTRAL_ID_TERM ru) (SDO_IDENT_TERM ru)) m"
  from Cons.prems have
    "dataset_ids_loop ru g ds ?m (if ?m d \<noteq> None then acc @ [d] else acc) = (m', datasets)"
    by (simp add: Let_def)
  from Cons.IH[OF this] show ?case by (auto split: if_splits)
qed

lemma selected_datasets_member:
  assumes "(d, i) \<in> set (selected_datasets ru g dataset_id)"
  shows "d \<in> set (all_datasets ru g) \<and> (\<forall>l. dataset_id = Some l \<longrightarrow> i = l)"
proof -
  obtain m ds where l: "dataset_ids_loop ru g (all_datasets ru g) Map.empty [] = (m, ds)"
    by (cases "dataset_ids_loop ru g (all_datasets ru g) Map.empty []")
  from assms l have "d \<in> set (filter_datasets dataset_id m ds)" and mi: "m d = Some i"
    by (auto simp: selected_datasets_def List.map_filter_def split: option.splits)
  then have "d \<in> set ds" and f: "dataset_id = None \<or> dataset_id = m d"
    by (auto simp: filter_datasets_def)
  with dataset_ids_loop_subset[OF l] mi show ?thesis by auto
qed

lemma list_dataset_variables_filter:
  assumes "list_dataset_variables ru g (Some l) = Inr rows" and "r \<in> set rows"
  shows "study r = l"
proof -
  from list_dataset_variables_loop[OF assms(1)] obtain descrs ids names where
    "variables_loop ru g descrs ids names (selected_datasets ru g (Some l)) = Inr rows"
    by blast
  from variables_loop_study[OF this assms(2)] selected_datasets_member[of _ _ ru g "Some l"]
  show ?thesis by auto
qed

text \<open>
  C6. A node that no triple declares to be of the Dataset type (it has no \<open>rdf:type\<close> at all),
  but that another predicate links to the Dataset class, is selected by the first step and
  gets a row.
\<close>

theorem list_dataset_variables_node_not_declared:
  "triples g_not_declared (Some ''D1'', Some (RDF_TYPE_TERM ru0), None) = [] \<and>
   list_dataset_variables ru0 g_not_declared None = Inr [row_age]"
  by code_simp

end
